theory Spec2Isabelle
  imports Complex_Main "HOL-Library.Sublist" "HOL-Library.AList" "HOL-Library.Multiset"
begin

section \<open>Text helpers\<close>

text \<open>
  Python strings are modelled as \<open>string\<close>; the model covers ASCII text. The three
  string methods used by the validators of \<^verbatim>\<open>models/base_models.py\<close> are
  \<^verbatim>\<open>str.strip()\<close>, \<^verbatim>\<open>str.lower()\<close> and \<^verbatim>\<open>str.replace(' ', '_')\<close>.
  \<open>is_space\<close> lists the ASCII characters for which \<^verbatim>\<open>str.isspace()\<close> holds (tab, line
  feed, vertical tab, form feed, carriage return, the four separators 0x1C-0x1F and the
  blank).
\<close>

definition is_space :: "char \<Rightarrow> bool" where
  "is_space c = (c \<in> set [CHR 0x09, CHR 0x0A, CHR 0x0B, CHR 0x0C, CHR 0x0D,
                            CHR 0x1C, CHR 0x1D, CHR 0x1E, CHR 0x1F, CHR 0x20])"

definition is_alpha :: "char \<Rightarrow> bool" where
  "is_alpha c = (c \<in> set ''ABCDEFGHIJKLMNOPQRSTUVWXYZabcdefghijklmnopqrstuvwxyz'')"

definition is_alnum :: "char \<Rightarrow> bool" where
  "is_alnum c = (is_alpha c \<or> c \<in> set ''0123456789'')"

definition lower_char :: "char \<Rightarrow> char" where
  "lower_char c =
     (case map_of (zip ''ABCDEFGHIJKLMNOPQRSTUVWXYZ'' ''abcdefghijklmnopqrstuvwxyz'') c of
        Some d \<Rightarrow> d
      | None \<Rightarrow> c)"

definition lower :: "string \<Rightarrow> string" where
  "lower s = map lower_char s"

definition strip :: "string \<Rightarrow> string" where
  "strip s = rev (dropWhile is_space (rev (dropWhile is_space s)))"

definition replace_space :: "string \<Rightarrow> string" where
  "replace_space s = map (\<lambda>c. if c = CHR '' '' then CHR ''_'' else c) s"

text \<open>\<^verbatim>\<open>sep.join(parts)\<close>.\<close>

fun join :: "string \<Rightarrow> string list \<Rightarrow> string" where
  "join sep [] = []"
| "join sep [x] = x"
| "join sep (x # y # ys) = x @ sep @ join sep (y # ys)"

text \<open>\<^verbatim>\<open>str(n)\<close> of a Python int, as used by the f-strings of the DDL generator.\<close>

fun str_nat :: "nat \<Rightarrow> string" where
  "str_nat n = (if n < 10 then [''0123456789'' ! n]
                else str_nat (n div 10) @ [''0123456789'' ! (n mod 10)])"

definition str_int :: "int \<Rightarrow> string" where
  "str_int i = (if i < 0 then CHR ''-'' # str_nat (nat (- i)) else str_nat (nat i))"

definition nl :: string where
  "nl = [CHR 0x0A]"

definition dq :: string where
  "dq = [CHR 0x22]"

definition sq :: string where
  "sq = [CHR 0x27]"

section \<open>Column and table models (models/base_models.py)\<close>

datatype ColumnType =
    INTEGER | BIGINT | VARCHAR | TEXT | BOOLEAN | TIMESTAMP | DATE | DECIMAL | REAL | JSON | UUID

text \<open>
  The enum members are strings; the model configuration stores the member's value
  (\<^verbatim>\<open>use_enum_values = True\<close>), which is what the f-strings print.
\<close>

fun type_value :: "ColumnType \<Rightarrow> string" where
  "type_value INTEGER = ''integer''"
| "type_value BIGINT = ''bigint''"
| "type_value VARCHAR = ''varchar''"
| "type_value TEXT = ''text''"
| "type_value BOOLEAN = ''boolean''"
| "type_value TIMESTAMP = ''timestamp''"
| "type_value DATE = ''date''"
| "type_value DECIMAL = ''decimal''"
| "type_value REAL = ''real''"
| "type_value JSON = ''json''"
| "type_value UUID = ''uuid''"

text \<open>\<^verbatim>\<open>default_value: Optional[Union[str, int, bool]]\<close>\<close>

datatype default_val = DStr string | DInt int | DBool bool

record ColumnDefinition =
  col_name :: string
  col_type :: ColumnType
  nullable :: bool
  primary_key :: bool
  unique_flag :: bool
  default_value :: "default_val option"
  max_length :: "int option"

record TableSchema =
  ts_name :: string
  ts_columns :: "ColumnDefinition list"
  ts_client_id :: string

text \<open>
  Exceptions. A validator raising \<^verbatim>\<open>ValueError\<close> makes the model constructor raise;
  \<open>DbExn s\<close> is an exception raised by the database driver or the REST client, with
  \<open>s\<close> its \<^verbatim>\<open>str(e)\<close>.
\<close>

datatype verr = ColumnNameEmpty | TableNameEmpty | NoColumns

datatype db_exn = DbExn string

datatype exn = Invalid verr | Db db_exn | KeyError string

text \<open>
  \<^verbatim>\<open>ColumnDefinition.validate_column_name\<close>:
  \<^verbatim>\<open>if not v or not v.strip(): raise ValueError(...)\<close>,
  \<^verbatim>\<open>return v.strip().lower().replace(' ', '_')\<close>.
\<close>

definition validate_column_name :: "string \<Rightarrow> verr + string" where
  "validate_column_name v =
     (if v = [] \<or> strip v = [] then Inl ColumnNameEmpty
      else Inr (replace_space (lower (strip v))))"

text \<open>\<^verbatim>\<open>TableSchema.validate_table_name\<close>, the same normalisation for the table name.\<close>

definition validate_table_name :: "string \<Rightarrow> verr + string" where
  "validate_table_name v =
     (if v = [] \<or> strip v = [] then Inl TableNameEmpty
      else Inr (replace_space (lower (strip v))))"

text \<open>
  The constructor call \<^verbatim>\<open>ColumnDefinition(name=key, type=pg_type, primary_key=is_primary_key)\<close>
  of the schema inference: the other fields take their declared defaults.
\<close>

definition mk_ColumnDefinition :: "string \<Rightarrow> ColumnType \<Rightarrow> bool \<Rightarrow> verr + ColumnDefinition" where
  "mk_ColumnDefinition n ty pk =
     (case validate_column_name n of
        Inl e \<Rightarrow> Inl e
      | Inr n' \<Rightarrow> Inr \<lparr>col_name = n', col_type = ty, nullable = True, primary_key = pk,
                        unique_flag = False, default_value = None, max_length = None\<rparr>)"

text \<open>
  The column built inside \<^verbatim>\<open>validate_columns\<close>:
  \<^verbatim>\<open>ColumnDefinition(name="id", type=ColumnType.UUID, nullable=False, primary_key=True,
  default_value="gen_random_uuid()")\<close>. Its name passes the name validator unchanged.
\<close>

definition id_column :: ColumnDefinition where
  "id_column = \<lparr>col_name = ''id'', col_type = UUID, nullable = False, primary_key = True,
                 unique_flag = False, default_value = Some (DStr ''gen_random_uuid()''),
                 max_length = None\<rparr>"

text \<open>
  \<^verbatim>\<open>TableSchema.validate_columns\<close>: an empty list is rejected; when no column is flagged
  primary key the generated column is inserted at index 0.
\<close>

definition validate_columns :: "ColumnDefinition list \<Rightarrow> verr + ColumnDefinition list" where
  "validate_columns v =
     (if v = [] then Inl NoColumns
      else if [col \<leftarrow> v. primary_key col] = [] then Inr (id_column # v)
      else Inr v)"

text \<open>
  \<^verbatim>\<open>TableSchema(name=..., columns=..., client_id=...)\<close>: the field validators run in
  declaration order; the construction fails when one of them raises. The timestamp field
  \<^verbatim>\<open>created_at\<close> plays no part in the generated SQL and is left out.
\<close>

definition mk_TableSchema :: "string \<Rightarrow> ColumnDefinition list \<Rightarrow> string \<Rightarrow> verr + TableSchema" where
  "mk_TableSchema n cols cid =
     (case validate_table_name n of
        Inl e \<Rightarrow> Inl e
      | Inr n' \<Rightarrow>
          (case validate_columns cols of
             Inl e \<Rightarrow> Inl e
           | Inr cols' \<Rightarrow> Inr \<lparr>ts_name = n', ts_columns = cols', ts_client_id = cid\<rparr>))"

subsection \<open>TableSchema.get_create_table_sql\<close>

text \<open>The text appended for \<^verbatim>\<open>col.default_value\<close> when it is not \<^verbatim>\<open>None\<close>.\<close>

fun default_sql :: "default_val \<Rightarrow> string" where
  "default_sql (DStr s) =
     (if s = ''gen_random_uuid()'' then '' DEFAULT '' @ s
      else '' DEFAULT '' @ sq @ s @ sq)"
| "default_sql (DInt i) = '' DEFAULT '' @ str_int i"
| "default_sql (DBool b) = '' DEFAULT '' @ (if b then ''True'' else ''False'')"

text \<open>One iteration of the loop over \<^verbatim>\<open>self.columns\<close>: the value of \<^verbatim>\<open>col_sql\<close>.\<close>

definition col_sql :: "ColumnDefinition \<Rightarrow> string" where
  "col_sql col =
     dq @ col_name col @ dq @ '' '' @ type_value (col_type col)
     @ (if col_type col = VARCHAR \<and> max_length col \<noteq> None \<and> max_length col \<noteq> Some 0
        then ''('' @ str_int (the (max_length col)) @ '')'' else [])
     @ (if \<not> nullable col then '' NOT NULL'' else [])
     @ (case default_value col of None \<Rightarrow> [] | Some d \<Rightarrow> default_sql d)
     @ (if unique_flag col then '' UNIQUE'' else [])"

definition pk_clause :: "string list \<Rightarrow> string" where
  "pk_clause primary_keys =
     ''PRIMARY KEY ('' @ join '', '' (map (\<lambda>pk. dq @ pk @ dq) primary_keys) @ '')''"

definition get_create_table_sql :: "TableSchema \<Rightarrow> string" where
  "get_create_table_sql s =
     (let columns_sql = map col_sql (ts_columns s);
          primary_keys = [col_name col. col \<leftarrow> ts_columns s, primary_key col];
          columns_sql' = (if primary_keys \<noteq> [] then columns_sql @ [pk_clause primary_keys]
                          else columns_sql)
      in ''CREATE TABLE IF NOT EXISTS '' @ dq @ ts_name s @ dq @ '' ('' @ nl @ ''  ''
         @ join ('','' @ nl @ ''  '') columns_sql' @ nl @ '');'')"

section \<open>Schema inference (services/supabase_service.py)\<close>

text \<open>
  The values of a record: what a decoded JSON document holds, and \<^verbatim>\<open>datetime\<close> objects,
  which the inference tests for. A record is a Python \<^verbatim>\<open>dict\<close>, modelled as an
  association list in insertion order; a \<^verbatim>\<open>dict\<close> has no repeated key.
\<close>

datatype pyval =
    PNone
  | PBool bool
  | PInt int
  | PFloat real
  | PStr string
  | PDatetime string
  | PList "pyval list"
  | PDict "(string \<times> pyval) list"

type_synonym pyrecord = "(string \<times> pyval) list"

text \<open>
  The \<^verbatim>\<open>isinstance\<close> chain of \<^verbatim>\<open>_infer_schema_from_data\<close>: \<^verbatim>\<open>bool\<close> is tested before
  \<^verbatim>\<open>int\<close>, then \<^verbatim>\<open>float\<close>, then \<^verbatim>\<open>datetime\<close>; the \<^verbatim>\<open>else\<close> branch is
  commented "Default to TEXT for strings or other types".
\<close>

fun pg_type :: "pyval \<Rightarrow> ColumnType" where
  "pg_type (PBool b) = BOOLEAN"
| "pg_type (PInt i) = BIGINT"
| "pg_type (PFloat f) = REAL"
| "pg_type (PDatetime d) = TIMESTAMP"
| "pg_type v = TEXT"

text \<open>
  The loop \<^verbatim>\<open>for key, value in sample.items()\<close>. \<open>columns_definition\<close> is the
  dictionary being filled: assigning to a key it already holds replaces the value in place,
  a new key is appended (\<open>AList.update\<close>). A column name that the validator rejects
  raises out of the loop.
\<close>

fun infer_columns ::
  "bool \<Rightarrow> pyrecord \<Rightarrow> (string \<times> ColumnDefinition) list \<Rightarrow> verr + (string \<times> ColumnDefinition) list"
where
  "infer_columns has_id_column [] columns_definition = Inr columns_definition"
| "infer_columns has_id_column ((key, val) # rest) columns_definition =
     (let is_primary_key =
            (if has_id_column then lower key = ''id'' else length columns_definition = 0)
      in case mk_ColumnDefinition key (pg_type val) is_primary_key of
           Inl e \<Rightarrow> Inl e
         | Inr c \<Rightarrow> infer_columns has_id_column rest (AList.update key c columns_definition))"

text \<open>
  \<^verbatim>\<open>_infer_schema_from_data\<close> (the leading underscore is dropped). Only \<^verbatim>\<open>data[0]\<close> is
  read. When the sample has a key \<^verbatim>\<open>'id'\<close>, its column is popped and put first.
\<close>

definition infer_schema_from_data :: "string \<Rightarrow> string \<Rightarrow> pyrecord list \<Rightarrow> verr + TableSchema" where
  "infer_schema_from_data empresa_id table_name data =
     (case data of
        [] \<Rightarrow> mk_TableSchema table_name [] empresa_id
      | sample # _ \<Rightarrow>
          (let has_id_column = (''id'' \<in> set (map fst sample))
           in case infer_columns has_id_column sample [] of
                Inl e \<Rightarrow> Inl e
              | Inr columns_definition \<Rightarrow>
                  (let reordered =
                         (if has_id_column then
                            (case map_of columns_definition ''id'' of
                               Some id_col \<Rightarrow> (''id'', id_col) # AList.delete ''id'' columns_definition
                             | None \<Rightarrow> columns_definition)
                          else columns_definition)
                   in mk_TableSchema table_name (map snd reordered) empresa_id)))"

section \<open>The service and its surroundings (services/supabase_service.py)\<close>

text \<open>
  The service talks to the tenant's REST client, to a connection pool and to the database
  behind it. These surroundings are a parameter of the model: an \<open>env\<close> answers every
  request, and its answer may depend on everything that happened before, so it is given
  the trace of events so far. Each function of the service takes the trace and returns it
  extended by the events it caused. Calls of the logger are not modelled; they do not
  return values and are taken not to raise.

  \<^item> \<open>GetClientConnection\<close>: a call of \<^verbatim>\<open>get_client_connection\<close>, which looks the tenant's
    configuration up and builds a REST client; it catches every exception and returns
    \<^verbatim>\<open>None\<close> then, so the answer is whether a client was returned.
  \<^item> \<open>InvalidateClientConnection\<close>: a call of \<^verbatim>\<open>invalidate_client_connection\<close>, whose
    body only logs.
  \<^item> \<open>Sleep\<close>: \<^verbatim>\<open>asyncio.sleep\<close>, in seconds.
  \<^item> \<open>ExecuteQuery\<close>: \<^verbatim>\<open>execute_query\<close> was entered with this tenant and statement.
  \<^item> \<open>GetConnectionPool\<close>: a call of \<^verbatim>\<open>get_connection_pool\<close>, which likewise returns
    \<^verbatim>\<open>None\<close> instead of raising.
  \<^item> \<open>PoolAcquire\<close>, \<open>ConnExecute\<close>, \<open>ConnFetch\<close>, \<open>PoolRelease\<close>: the calls on the pool
    and on the acquired connection.
  \<^item> \<open>ClientWrite\<close>: \<^verbatim>\<open>client.table(t).upsert(data, on_conflict=pk).execute()\<close> or
    \<^verbatim>\<open>client.table(t).insert(data).execute()\<close>.
\<close>

datatype write_op =
    Upsert string "pyrecord list" string
  | Insert string "pyrecord list"

datatype event =
    GetClientConnection string
  | InvalidateClientConnection string
  | Sleep nat
  | ExecuteQuery string string
  | GetConnectionPool string
  | PoolAcquire
  | ConnExecute string
  | ConnFetch string
  | PoolRelease
  | ClientWrite write_op

type_synonym trace = "event list"

text \<open>A row returned by the driver, \<^verbatim>\<open>dict(row)\<close>: column name to value.\<close>

type_synonym row = "(string \<times> string) list"

text \<open>The REST response, as far as \<^verbatim>\<open>upsert_data\<close> reads it.\<close>

record response =
  resp_data :: "pyrecord list"
  resp_error :: "string option"

record env =
  client_connection :: "trace \<Rightarrow> string \<Rightarrow> bool"
  connection_pool :: "trace \<Rightarrow> string \<Rightarrow> bool"
  pool_acquire :: "trace \<Rightarrow> db_exn option"
  conn_execute :: "trace \<Rightarrow> string \<Rightarrow> db_exn option"
  conn_fetch :: "trace \<Rightarrow> string \<Rightarrow> db_exn + row list"
  client_write :: "trace \<Rightarrow> write_op \<Rightarrow> db_exn + response"

subsection \<open>Statements\<close>

definition notify_sql :: string where
  "notify_sql = ''NOTIFY pgrst, '' @ sq @ ''reload schema'' @ sq"

definition probe_sql :: "string \<Rightarrow> string" where
  "probe_sql table_name = ''SELECT 1 FROM public.'' @ dq @ table_name @ dq @ '' LIMIT 1;''"

definition ind8 :: string where
  "ind8 = ''        ''"

definition ind12 :: string where
  "ind12 = ''            ''"

text \<open>The query text of \<^verbatim>\<open>_get_table_schema_from_db\<close>, a triple-quoted f-string.\<close>

definition columns_sql :: "string \<Rightarrow> string" where
  "columns_sql table_name =
     nl @ ind8 @ ''SELECT column_name''
     @ nl @ ind8 @ ''FROM information_schema.columns''
     @ nl @ ind8 @ ''WHERE table_schema = '' @ sq @ ''public'' @ sq
     @ '' AND table_name = '' @ sq @ table_name @ sq @ '';''
     @ nl @ ind8"

text \<open>
  The query text of \<^verbatim>\<open>_get_primary_key_column\<close> after
  \<^verbatim>\<open>query.replace('$1', f"'{table_name}'")\<close>; the template holds \<^verbatim>\<open>$1\<close> once.
\<close>

definition pk_sql :: "string \<Rightarrow> string" where
  "pk_sql table_name =
     nl @ ind8 @ ''SELECT ''
     @ nl @ ind12 @ ''kcu.column_name''
     @ nl @ ind8 @ ''FROM information_schema.table_constraints tc''
     @ nl @ ind8 @ ''JOIN information_schema.key_column_usage kcu ''
     @ nl @ ind12 @ ''ON tc.constraint_name = kcu.constraint_name''
     @ nl @ ind12 @ ''AND tc.table_schema = kcu.table_schema''
     @ nl @ ind8 @ ''WHERE tc.table_schema = '' @ sq @ ''public'' @ sq @ '' ''
     @ nl @ ind12 @ ''AND tc.table_name = '' @ sq @ table_name @ sq
     @ nl @ ind12 @ ''AND tc.constraint_type = '' @ sq @ ''PRIMARY KEY'' @ sq
     @ nl @ ind8 @ ''LIMIT 1;''
     @ nl @ ind8"

text \<open>The statement built in the loop of \<^verbatim>\<open>_compare_and_alter_table\<close>.\<close>

definition alter_sql :: "string \<Rightarrow> ColumnDefinition \<Rightarrow> string" where
  "alter_sql table_name column =
     ''ALTER TABLE public.'' @ dq @ table_name @ dq @ '' ADD COLUMN '' @ dq @ col_name column @ dq
     @ '' '' @ type_value (col_type column) @ '';''"

text \<open>\<^verbatim>\<open>query.strip().lower().startswith(("create ", "alter ", "drop "))\<close>\<close>

definition is_ddl :: "string \<Rightarrow> bool" where
  "is_ddl query =
     (let q = lower (strip query)
      in prefix ''create '' q \<or> prefix ''alter '' q \<or> prefix ''drop '' q)"

subsection \<open>execute_query\<close>

text \<open>
  Called without \<^verbatim>\<open>params\<close> everywhere in the code modelled here. Without a pool the
  function returns \<^verbatim>\<open>None\<close> and nothing reaches the database. After a data-definition
  statement it sends the reload notification on the same connection and ignores a failure
  of that notification. Every exception is raised again; the connection, once acquired,
  is released on every path.
\<close>

definition execute_query ::
  "env \<Rightarrow> trace \<Rightarrow> string \<Rightarrow> string \<Rightarrow> (db_exn + row list option) \<times> trace"
where
  "execute_query env tr empresa_id query =
     (let tr0 = tr @ [ExecuteQuery empresa_id query];
          tr1 = tr0 @ [GetConnectionPool empresa_id]
      in if \<not> connection_pool env tr0 empresa_id then (Inr None, tr1)
         else
           (case pool_acquire env tr1 of
              Some e \<Rightarrow> (Inl e, tr1 @ [PoolAcquire])
            | None \<Rightarrow>
                (let tr2 = tr1 @ [PoolAcquire]
                 in if is_ddl query then
                      (case conn_execute env tr2 query of
                         Some e \<Rightarrow> (Inl e, tr2 @ [ConnExecute query, PoolRelease])
                       | None \<Rightarrow>
                           (Inr (Some []),
                            tr2 @ [ConnExecute query, ConnExecute notify_sql, PoolRelease]))
                    else
                      (case conn_fetch env tr2 query of
                         Inl e \<Rightarrow> (Inl e, tr2 @ [ConnFetch query, PoolRelease])
                       | Inr rows \<Rightarrow> (Inr (Some rows), tr2 @ [ConnFetch query, PoolRelease])))))"

subsection \<open>table_exists_postgres\<close>

definition exn_str :: "db_exn \<Rightarrow> string" where
  "exn_str e = (case e of DbExn s \<Rightarrow> s)"

text \<open>
  The handler tells the undefined-table error from any other exception only for the log;
  both branches return \<^verbatim>\<open>False\<close>.
\<close>

definition table_exists_postgres :: "env \<Rightarrow> trace \<Rightarrow> string \<Rightarrow> string \<Rightarrow> bool \<times> trace" where
  "table_exists_postgres env tr empresa_id table_name =
     (case execute_query env tr empresa_id (probe_sql table_name) of
        (Inr _, tr') \<Rightarrow> (True, tr')
      | (Inl e, tr') \<Rightarrow>
          (if sublist ''UndefinedTableError'' (exn_str e) \<or> sublist ''does not exist'' (exn_str e)
           then (False, tr')
           else (False, tr')))"

subsection \<open>Catalog queries\<close>

text \<open>
  \<^verbatim>\<open>_get_table_schema_from_db\<close>: \<^verbatim>\<open>[row['column_name'] for row in result]\<close>, or the empty
  list when \<^verbatim>\<open>execute_query\<close> returned \<^verbatim>\<open>None\<close>. Exceptions propagate.
\<close>

definition get_table_schema_from_db ::
  "env \<Rightarrow> trace \<Rightarrow> string \<Rightarrow> string \<Rightarrow> (exn + string list) \<times> trace"
where
  "get_table_schema_from_db env tr empresa_id table_name =
     (case execute_query env tr empresa_id (columns_sql table_name) of
        (Inl e, tr') \<Rightarrow> (Inl (Db e), tr')
      | (Inr None, tr') \<Rightarrow> (Inr [], tr')
      | (Inr (Some rows), tr') \<Rightarrow>
          (case those (map (\<lambda>r. map_of r ''column_name'') rows) of
             None \<Rightarrow> (Inl (KeyError ''column_name''), tr')
           | Some names \<Rightarrow> (Inr names, tr')))"

text \<open>
  \<^verbatim>\<open>_get_primary_key_column\<close>: the first row's \<^verbatim>\<open>column_name\<close>, and \<^verbatim>\<open>None\<close> when the
  result is empty or \<^verbatim>\<open>None\<close> and when anything raises inside the \<^verbatim>\<open>try\<close>.
\<close>

definition get_primary_key_column ::
  "env \<Rightarrow> trace \<Rightarrow> string \<Rightarrow> string \<Rightarrow> string option \<times> trace"
where
  "get_primary_key_column env tr empresa_id table_name =
     (case execute_query env tr empresa_id (pk_sql table_name) of
        (Inl e, tr') \<Rightarrow> (None, tr')
      | (Inr None, tr') \<Rightarrow> (None, tr')
      | (Inr (Some []), tr') \<Rightarrow> (None, tr')
      | (Inr (Some (r # _)), tr') \<Rightarrow>
          (case map_of r ''column_name'' of
             None \<Rightarrow> (None, tr')
           | Some pk_column \<Rightarrow> (Some pk_column, tr')))"

subsection \<open>_compare_and_alter_table\<close>

text \<open>
  The loop over \<^verbatim>\<open>inferred_schema.columns\<close>; \<open>existing_columns\<close> is read once before
  the loop. An exception of \<^verbatim>\<open>execute_query\<close> ends the loop.
\<close>

fun alter_loop ::
  "env \<Rightarrow> trace \<Rightarrow> string \<Rightarrow> string \<Rightarrow> string list \<Rightarrow> ColumnDefinition list \<Rightarrow> (exn + unit) \<times> trace"
where
  "alter_loop env tr empresa_id table_name existing_columns [] = (Inr (), tr)"
| "alter_loop env tr empresa_id table_name existing_columns (column # rest) =
     (if col_name column \<notin> set existing_columns then
        (case execute_query env tr empresa_id (alter_sql table_name column) of
           (Inl e, tr') \<Rightarrow> (Inl (Db e), tr')
         | (Inr _, tr') \<Rightarrow> alter_loop env tr' empresa_id table_name existing_columns rest)
      else alter_loop env tr empresa_id table_name existing_columns rest)"

definition compare_and_alter_table ::
  "env \<Rightarrow> trace \<Rightarrow> string \<Rightarrow> string \<Rightarrow> TableSchema \<Rightarrow> (exn + unit) \<times> trace"
where
  "compare_and_alter_table env tr empresa_id table_name inferred_schema =
     (case get_table_schema_from_db env tr empresa_id table_name of
        (Inl e, tr') \<Rightarrow> (Inl e, tr')
      | (Inr existing_columns, tr') \<Rightarrow>
          alter_loop env tr' empresa_id table_name existing_columns (ts_columns inferred_schema))"

subsection \<open>upsert_data\<close>

text \<open>
  The returned triple \<^verbatim>\<open>(success, message, count)\<close>. The message texts are Portuguese
  f-strings; the model keeps which message it is and the values formatted into it.
\<close>

datatype message =
    MsgNoData
  | MsgNoConnection string
  | MsgNoReconnection string
  | MsgCreateFailed string
  | MsgWritten nat string
  | MsgWriteFailed string "string option"
  | MsgUnexpected string exn

type_synonym result = "bool \<times> message \<times> nat"

text \<open>
  How a stretch of the \<^verbatim>\<open>try\<close> block ends: an exception is raised, the function
  returns, or control falls through to the next statement.
\<close>

datatype outcome = Raised exn | Returned result | Next

text \<open>
  The branch \<^verbatim>\<open>if not table_exists:\<close>. The create statement, the reload notification,
  the invalidation, the pause of one second, the client fetched again, and the existence
  probe once more; a table still absent then ends the call.
\<close>

definition create_table_and_verify ::
  "env \<Rightarrow> trace \<Rightarrow> string \<Rightarrow> string \<Rightarrow> TableSchema \<Rightarrow> outcome \<times> trace"
where
  "create_table_and_verify env tr empresa_id table_name inferred_schema =
     (let create_sql = get_create_table_sql inferred_schema
      in case execute_query env tr empresa_id create_sql of
           (Inl e, tr1) \<Rightarrow> (Raised (Db e), tr1)
         | (Inr _, tr1) \<Rightarrow>
             (case execute_query env tr1 empresa_id notify_sql of
                (Inl e, tr2) \<Rightarrow> (Raised (Db e), tr2)
              | (Inr _, tr2) \<Rightarrow>
                  (let tr3 = tr2 @ [InvalidateClientConnection empresa_id, Sleep 1];
                       tr4 = tr3 @ [GetClientConnection empresa_id]
                   in if \<not> client_connection env tr3 empresa_id
                      then (Returned (False, MsgNoReconnection empresa_id, 0), tr4)
                      else
                        (case table_exists_postgres env tr4 empresa_id table_name of
                           (False, tr5) \<Rightarrow> (Returned (False, MsgCreateFailed table_name, 0), tr5)
                         | (True, tr5) \<Rightarrow> (Next, tr5)))))"

text \<open>
  The \<^verbatim>\<open>try\<close> block up to the write: the client, the existence probe, the inference
  (which may raise), then creation or the comparison with the live columns.
\<close>

definition prepare_table ::
  "env \<Rightarrow> string \<Rightarrow> string \<Rightarrow> pyrecord list \<Rightarrow> outcome \<times> trace"
where
  "prepare_table env empresa_id table_name data =
     (let tr0 = [GetClientConnection empresa_id]
      in if \<not> client_connection env [] empresa_id
         then (Returned (False, MsgNoConnection empresa_id, 0), tr0)
         else
           (case table_exists_postgres env tr0 empresa_id table_name of
              (table_exists, tr1) \<Rightarrow>
                (case infer_schema_from_data empresa_id table_name data of
                   Inl e \<Rightarrow> (Raised (Invalid e), tr1)
                 | Inr inferred_schema \<Rightarrow>
                     (if \<not> table_exists
                      then create_table_and_verify env tr1 empresa_id table_name inferred_schema
                      else
                        (case compare_and_alter_table env tr1 empresa_id table_name inferred_schema of
                           (Inl e, tr2) \<Rightarrow> (Raised e, tr2)
                         | (Inr _, tr2) \<Rightarrow> (Next, tr2))))))"

text \<open>
  The write: the primary key is the one the catalog reports for the live table;
  \<^verbatim>\<open>if pk_column:\<close> holds for a non-empty name.
\<close>

definition write_op_for :: "string option \<Rightarrow> string \<Rightarrow> pyrecord list \<Rightarrow> write_op" where
  "write_op_for pk_column table_name data =
     (case pk_column of
        None \<Rightarrow> Insert table_name data
      | Some pk \<Rightarrow> (if pk \<noteq> [] then Upsert table_name data pk else Insert table_name data))"

definition write_records ::
  "env \<Rightarrow> trace \<Rightarrow> string \<Rightarrow> string \<Rightarrow> pyrecord list \<Rightarrow> result \<times> trace"
where
  "write_records env tr empresa_id table_name data =
     (case get_primary_key_column env tr empresa_id table_name of
        (pk_column, tr1) \<Rightarrow>
          (let w = write_op_for pk_column table_name data;
               tr2 = tr1 @ [ClientWrite w]
           in case client_write env tr1 w of
                Inl e \<Rightarrow> ((False, MsgUnexpected table_name (Db e), 0), tr2)
              | Inr response \<Rightarrow>
                  (if resp_data response \<noteq> []
                   then ((True, MsgWritten (length (resp_data response)) table_name,
                          length (resp_data response)), tr2)
                   else ((False, MsgWriteFailed table_name (resp_error response), 0), tr2))))"

text \<open>
  The whole function: the empty batch returns before the \<^verbatim>\<open>try\<close>; an exception raised
  anywhere inside it becomes a failed result.
\<close>

definition upsert_data :: "env \<Rightarrow> string \<Rightarrow> string \<Rightarrow> pyrecord list \<Rightarrow> result \<times> trace" where
  "upsert_data env empresa_id table_name data =
     (if data = [] then ((True, MsgNoData, 0), [])
      else
        (case prepare_table env empresa_id table_name data of
           (Raised e, tr) \<Rightarrow> ((False, MsgUnexpected table_name e, 0), tr)
         | (Returned r, tr) \<Rightarrow> (r, tr)
         | (Next, tr) \<Rightarrow> write_records env tr empresa_id table_name data))"

subsection \<open>Reading a trace\<close>

text \<open>The statements handed to \<^verbatim>\<open>execute_query\<close>, in order.\<close>

fun queries_of :: "trace \<Rightarrow> string list" where
  "queries_of [] = []"
| "queries_of (ExecuteQuery _ q # tr) = q # queries_of tr"
| "queries_of (_ # tr) = queries_of tr"

text \<open>The statements sent to the database connection, in order.\<close>

fun statements_of :: "trace \<Rightarrow> string list" where
  "statements_of [] = []"
| "statements_of (ConnExecute q # tr) = q # statements_of tr"
| "statements_of (ConnFetch q # tr) = q # statements_of tr"
| "statements_of (_ # tr) = statements_of tr"

text \<open>The writes sent through the REST client, in order.\<close>

fun writes_of :: "trace \<Rightarrow> write_op list" where
  "writes_of [] = []"
| "writes_of (ClientWrite w # tr) = w # writes_of tr"
| "writes_of (_ # tr) = writes_of tr"

text \<open>The calls that are neither a query nor a write: client, invalidation, pause.\<close>

fun control_of :: "trace \<Rightarrow> event list" where
  "control_of [] = []"
| "control_of (GetClientConnection e # tr) = GetClientConnection e # control_of tr"
| "control_of (InvalidateClientConnection e # tr) = InvalidateClientConnection e # control_of tr"
| "control_of (Sleep n # tr) = Sleep n # control_of tr"
| "control_of (_ # tr) = control_of tr"

subsection \<open>Notions used in the statements\<close>

text \<open>
  The inferred columns whose name is not among the live column names: the columns for which
  the loop of \<^verbatim>\<open>_compare_and_alter_table\<close> builds a statement.
\<close>

definition missing_columns :: "string list \<Rightarrow> ColumnDefinition list \<Rightarrow> ColumnDefinition list" where
  "missing_columns existing cols = [c \<leftarrow> cols. col_name c \<notin> set existing]"

text \<open>The calls between the reload notification and the second existence probe.\<close>

definition recovery_calls :: "string \<Rightarrow> event list" where
  "recovery_calls empresa_id =
     [InvalidateClientConnection empresa_id, Sleep 1, GetClientConnection empresa_id]"

text \<open>A column as the inference builds it: every field but name, type and key flag is a default.\<close>

definition inferred_column :: "string \<Rightarrow> ColumnType \<Rightarrow> bool \<Rightarrow> ColumnDefinition" where
  "inferred_column n ty pk =
     \<lparr>col_name = n, col_type = ty, nullable = True, primary_key = pk, unique_flag = False,
      default_value = None, max_length = None\<rparr>"

text \<open>
  What the loop of the inference leaves in \<open>columns_definition\<close> for a record without
  repeated keys, field by field; \<open>n\<close> counts the fields already seen.
\<close>

fun expected_columns :: "bool \<Rightarrow> nat \<Rightarrow> pyrecord \<Rightarrow> (string \<times> ColumnDefinition) list" where
  "expected_columns h n [] = []"
| "expected_columns h n ((k, v) # xs) =
     (k, inferred_column (replace_space (lower (strip k))) (pg_type v)
           (if h then lower k = ''id'' else n = 0))
     # expected_columns h (Suc n) xs"

section \<open>Sample inputs\<close>

definition total_column :: ColumnDefinition where
  "total_column = \<lparr>col_name = ''total'', col_type = REAL, nullable = True, primary_key = False,
                    unique_flag = False, default_value = None, max_length = None\<rparr>"

definition orders_schema :: TableSchema where
  "orders_schema = \<lparr>ts_name = ''orders'', ts_columns = [id_column, total_column],
                     ts_client_id = ''acme''\<rparr>"

text \<open>
  Surroundings in which a client and a pool are always available, statements sent with
  \<^verbatim>\<open>execute\<close> succeed, \<^verbatim>\<open>fetch\<close> answers by the statement text alone, and a write
  returns the rows it was given.
\<close>

definition sample_env :: "(string \<Rightarrow> db_exn + row list) \<Rightarrow> env" where
  "sample_env fetch =
     \<lparr>client_connection = (\<lambda>tr e. True),
      connection_pool = (\<lambda>tr e. True),
      pool_acquire = (\<lambda>tr. None),
      conn_execute = (\<lambda>tr q. None),
      conn_fetch = (\<lambda>tr q. fetch q),
      client_write = (\<lambda>tr w. Inr \<lparr>resp_data = (case w of Upsert t d pk \<Rightarrow> d | Insert t d \<Rightarrow> d),
                                    resp_error = None\<rparr>)\<rparr>"

definition fetch_events :: "string \<Rightarrow> string \<Rightarrow> event list" where
  "fetch_events eid q = [ExecuteQuery eid q, GetConnectionPool eid, PoolAcquire, ConnFetch q, PoolRelease]"

definition ddl_events :: "string \<Rightarrow> string \<Rightarrow> event list" where
  "ddl_events eid q =
     [ExecuteQuery eid q, GetConnectionPool eid, PoolAcquire, ConnExecute q, ConnExecute notify_sql,
      PoolRelease]"

definition orders_data :: "pyrecord list" where
  "orders_data = [[(''id'', PInt 1), (''total'', PFloat 9.99)], [(''id'', PInt 1), (''total'', PFloat 19.99)]]"

definition orders_inferred :: TableSchema where
  "orders_inferred =
     \<lparr>ts_name = ''orders'',
      ts_columns = [inferred_column ''id'' BIGINT True, inferred_column ''total'' REAL False],
      ts_client_id = ''acme''\<rparr>"

definition env_unreachable :: env where
  "env_unreachable = sample_env (\<lambda>q. Inl (DbExn ''connection reset by peer''))"

definition env_absent :: env where
  "env_absent = sample_env (\<lambda>q. if q = notify_sql then Inr []
                                  else Inl (DbExn ''relation does not exist''))"

definition env_pk_unavailable :: env where
  "env_pk_unavailable =
     sample_env (\<lambda>q. if q = pk_sql ''orders'' then Inl (DbExn ''statement timeout'')
                      else if q = columns_sql ''orders''
                      then Inr [[(''column_name'', ''id'')], [(''column_name'', ''total'')]]
                      else Inr [])"

definition env_live_key :: env where
  "env_live_key =
     sample_env (\<lambda>q. if q = pk_sql ''orders'' then Inr [[(''column_name'', ''codigo'')]]
                      else if q = columns_sql ''orders''
                      then Inr [[(''column_name'', ''codigo'')], [(''column_name'', ''id'')],
                                [(''column_name'', ''total'')]]
                      else Inr [])"


definition metrics_schema :: TableSchema where
  "metrics_schema =
     \<lparr>ts_name = ''metrics'',
      ts_columns = [inferred_column ''ts'' TEXT True, inferred_column ''value'' REAL False,
                    inferred_column ''tag'' TEXT False],
      ts_client_id = ''acme''\<rparr>"

definition env_metrics :: env where
  "env_metrics =
     sample_env (\<lambda>q. if q = columns_sql ''metrics''
                      then Inr [[(''column_name'', ''ts'')], [(''column_name'', ''value'')]]
                      else Inr [])"

definition absent_tr1 :: trace where
  "absent_tr1 = GetClientConnection ''acme'' # fetch_events ''acme'' (probe_sql ''Orders'')"

definition absent_tr2 :: trace where
  "absent_tr2 = absent_tr1 @ ddl_events ''acme'' (get_create_table_sql orders_inferred)"

definition absent_tr3 :: trace where
  "absent_tr3 = absent_tr2 @ fetch_events ''acme'' notify_sql"

definition absent_tr4 :: trace where
  "absent_tr4 =
     absent_tr3
     @ [InvalidateClientConnection ''acme'', Sleep 1, GetClientConnection ''acme'']
     @ fetch_events ''acme'' (probe_sql ''Orders'')"

definition events_sample :: pyrecord where
  "events_sample =
     [(''id'', PInt 7), (''Created At'', PStr ''2024-01-15T10:30:00''), (''ativo'', PBool True),
      (''total'', PFloat 9.99), (''tags'', PList [PStr ''a''])]"

definition events_inferred :: TableSchema where
  "events_inferred =
     \<lparr>ts_name = ''events'',
      ts_columns = [inferred_column ''id'' BIGINT True, inferred_column ''created_at'' TEXT False,
                    inferred_column ''ativo'' BOOLEAN False, inferred_column ''total'' REAL False,
                    inferred_column ''tags'' TEXT False],
      ts_client_id = ''acme''\<rparr>"

section \<open>Properties of the column and table models\<close>

lemma sublist_join: "x \<in> set xs \<Longrightarrow> sublist x (join sep xs)"
proof (induction sep xs rule: join.induct)
  case (3 sep y z zs)
  show ?case
  proof (cases "x = y")
    case True
    then show ?thesis by simp
  next
    case False
    with 3 have "sublist x (join sep (z # zs))" by simp
    then show ?thesis
      by (metis join.simps(3) sublist_append_leftI sublist_order.order_trans)
  qed
qed simp_all

lemma sublist_wrap: "sublist x m \<Longrightarrow> sublist x (a @ m @ b)"
  by (metis sublist_appendI sublist_order.order_trans)

lemma validate_columns_no_pk:
  "cols \<noteq> [] \<Longrightarrow> \<forall>c \<in> set cols. \<not> primary_key c \<Longrightarrow>
   validate_columns cols = Inr (id_column # cols)"
  by (simp add: validate_columns_def filter_empty_conv)

lemma create_sql_no_pk:
  assumes "\<forall>c \<in> set cols. \<not> primary_key c"
  shows "get_create_table_sql \<lparr>ts_name = n, ts_columns = id_column # cols, ts_client_id = cid\<rparr> =
     ''CREATE TABLE IF NOT EXISTS '' @ dq @ n @ dq @ '' ('' @ nl @ ''  ''
       @ join ('','' @ nl @ ''  '') (col_sql id_column # map col_sql cols @ [pk_clause [''id'']])
       @ nl @ '');''"
proof -
  have "[col_name col. col \<leftarrow> id_column # cols, primary_key col] = [''id'']"
    using assms by (induction cols) (simp_all add: id_column_def)
  then show ?thesis
    by (simp add: get_create_table_sql_def Let_def)
qed

text \<open>
  C6. A table schema built from a non-empty column list without any primary-key column
  gets the generated \<open>id\<close> column (uuid, not null, default \<open>gen_random_uuid()\<close>, primary)
  as its first column, and its create-table statement holds that column's definition and
  the key constraint on it.
\<close>

theorem table_schema_synthesizes_primary_key:
  assumes "mk_TableSchema n cols cid = Inr s"
      and "cols \<noteq> []"
      and "\<forall>c \<in> set cols. \<not> primary_key c"
  shows "ts_columns s = id_column # cols
       \<and> primary_key id_column
       \<and> col_sql id_column = dq @ ''id'' @ dq @ '' uuid NOT NULL DEFAULT gen_random_uuid()''
       \<and> get_create_table_sql s =
           ''CREATE TABLE IF NOT EXISTS '' @ dq @ ts_name s @ dq @ '' ('' @ nl @ ''  ''
           @ join ('','' @ nl @ ''  '') (col_sql id_column # map col_sql cols @ [pk_clause [''id'']])
           @ nl @ '');''
       \<and> sublist (col_sql id_column) (get_create_table_sql s)
       \<and> sublist (''PRIMARY KEY ('' @ dq @ ''id'' @ dq @ '')'') (get_create_table_sql s)"
proof -
  obtain n' where n': "validate_table_name n = Inr n'"
    using assms(1) by (auto simp: mk_TableSchema_def split: sum.splits)
  have s: "s = \<lparr>ts_name = n', ts_columns = id_column # cols, ts_client_id = cid\<rparr>"
    using assms n' by (simp add: mk_TableSchema_def validate_columns_no_pk)
  have sql: "get_create_table_sql s =
           ''CREATE TABLE IF NOT EXISTS '' @ dq @ ts_name s @ dq @ '' ('' @ nl @ ''  ''
           @ join ('','' @ nl @ ''  '') (col_sql id_column # map col_sql cols @ [pk_clause [''id'']])
           @ nl @ '');''"
    unfolding s using create_sql_no_pk[OF assms(3)] by simp
  have c: "col_sql id_column = dq @ ''id'' @ dq @ '' uuid NOT NULL DEFAULT gen_random_uuid()''"
    by (simp add: col_sql_def id_column_def)
  have pk: "pk_clause [''id''] = ''PRIMARY KEY ('' @ dq @ ''id'' @ dq @ '')''"
    by (simp add: pk_clause_def)
  have shape: "get_create_table_sql s =
           (''CREATE TABLE IF NOT EXISTS '' @ dq @ ts_name s @ dq @ '' ('' @ nl @ ''  '')
           @ join ('','' @ nl @ ''  '') (col_sql id_column # map col_sql cols @ [pk_clause [''id'']])
           @ (nl @ '');'')"
    by (simp only: sql append_assoc)
  have sub1: "sublist (col_sql id_column) (get_create_table_sql s)"
    unfolding shape by (rule sublist_wrap, rule sublist_join) simp
  have sub2: "sublist (pk_clause [''id'']) (get_create_table_sql s)"
    unfolding shape by (rule sublist_wrap, rule sublist_join) simp
  show ?thesis
  proof (intro conjI)
    show "ts_columns s = id_column # cols" unfolding s by simp
    show "primary_key id_column" by (simp add: id_column_def)
    show "col_sql id_column = dq @ ''id'' @ dq @ '' uuid NOT NULL DEFAULT gen_random_uuid()''"
      by (rule c)
    show "get_create_table_sql s =
           ''CREATE TABLE IF NOT EXISTS '' @ dq @ ts_name s @ dq @ '' ('' @ nl @ ''  ''
           @ join ('','' @ nl @ ''  '') (col_sql id_column # map col_sql cols @ [pk_clause [''id'']])
           @ nl @ '');''"
      by (rule sql)
    show "sublist (col_sql id_column) (get_create_table_sql s)" by (rule sub1)
    show "sublist (''PRIMARY KEY ('' @ dq @ ''id'' @ dq @ '')'') (get_create_table_sql s)"
      using sub2 by (simp only: pk)
  qed
qed

theorem table_schema_synthesizes_primary_key_witness:
  "mk_TableSchema ''Orders'' [total_column] ''acme'' = Inr orders_schema
   \<and> [total_column] \<noteq> []
   \<and> \<not> primary_key total_column
   \<and> ts_columns orders_schema = id_column # [total_column]
   \<and> sublist (col_sql id_column) (get_create_table_sql orders_schema)
   \<and> sublist (''PRIMARY KEY ('' @ dq @ ''id'' @ dq @ '')'') (get_create_table_sql orders_schema)"
proof -
  have h1: "mk_TableSchema ''Orders'' [total_column] ''acme'' = Inr orders_schema"
    by code_simp
  have h2: "[total_column] \<noteq> []" by simp
  have h3: "\<forall>c \<in> set [total_column]. \<not> primary_key c" by (simp add: total_column_def)
  have h4: "\<not> primary_key total_column" by (simp add: total_column_def)
  show ?thesis
    using table_schema_synthesizes_primary_key[OF h1 h2 h3] h1 h2 h4 by blast
qed

text \<open>
  C8, evaluated on the name \<open>1a-b\<close>: the validator stores it unchanged, with its leading
  digit and its hyphen. Only blanks are replaced by underscores.
\<close>

theorem validate_column_name_keeps_special:
  "validate_column_name ''1a-b'' = Inr ''1a-b''
   \<and> \<not> is_alpha (CHR ''1'') \<and> \<not> is_alnum (CHR ''-'')"
  by code_simp

section \<open>Properties of the schema inference\<close>

text \<open>
  C5, evaluated on a record whose identifier field is spelled \<open>ID\<close>: the test
  \<^verbatim>\<open>'id' in sample\<close> looks for the lower-case key only, so the first field \<open>nome\<close> is
  flagged primary key and stays first; the column of \<open>ID\<close> is second and not flagged.
\<close>

theorem infer_uppercase_id_not_primary:
  "infer_schema_from_data ''acme'' ''usuarios'' [[(''nome'', PStr ''Ana''), (''ID'', PInt 5)]] =
     Inr \<lparr>ts_name = ''usuarios'',
          ts_columns =
            [\<lparr>col_name = ''nome'', col_type = TEXT, nullable = True, primary_key = True,
              unique_flag = False, default_value = None, max_length = None\<rparr>,
             \<lparr>col_name = ''id'', col_type = BIGINT, nullable = True, primary_key = False,
              unique_flag = False, default_value = None, max_length = None\<rparr>],
          ts_client_id = ''acme''\<rparr>"
  by code_simp

lemma update_fresh: "k \<notin> fst ` set al \<Longrightarrow> AList.update k v al = al @ [(k, v)]"
  by (induction al) auto

lemma expected_columns_keys [simp]: "map fst (expected_columns h n xs) = map fst xs"
  by (induction h n xs rule: expected_columns.induct) simp_all

lemma infer_columns_distinct:
  assumes "distinct (map fst acc @ map fst xs)"
      and "infer_columns h xs acc = Inr r"
  shows "r = acc @ expected_columns h (length acc) xs"
  using assms
proof (induction xs arbitrary: acc)
  case Nil
  then show ?case by simp
next
  case (Cons x xs)
  obtain k v where x: "x = (k, v)" by (cases x)
  let ?pk = "if h then lower k = ''id'' else length acc = 0"
  from Cons.prems(2) x obtain c where
    c: "mk_ColumnDefinition k (pg_type v) ?pk = Inr c"
    and rec: "infer_columns h xs (AList.update k c acc) = Inr r"
    by (auto simp: Let_def split: sum.splits)
  have cv: "c = inferred_column (replace_space (lower (strip k))) (pg_type v) ?pk"
    using c
    by (auto simp: mk_ColumnDefinition_def validate_column_name_def inferred_column_def
             split: if_splits)
  have fresh: "k \<notin> fst ` set acc" using Cons.prems(1) x by auto
  have upd: "AList.update k c acc = acc @ [(k, c)]" by (rule update_fresh[OF fresh])
  have d: "distinct (map fst (acc @ [(k, c)]) @ map fst xs)"
    using Cons.prems(1) x by auto
  from Cons.IH[OF d] rec upd
  have "r = (acc @ [(k, c)]) @ expected_columns h (length (acc @ [(k, c)])) xs" by simp
  then show ?case using x cv by simp
qed

lemma expected_columns_types:
  "map (\<lambda>c. (col_name c, col_type c)) (map snd (expected_columns h n xs))
   = map (\<lambda>(k, v). (replace_space (lower (strip k)), pg_type v)) xs"
  by (induction h n xs rule: expected_columns.induct) (simp_all add: inferred_column_def)

lemma expected_columns_id_primary:
  "(k, c) \<in> set (expected_columns True n xs) \<Longrightarrow> primary_key c = (lower k = ''id'')"
  by (induction True n xs rule: expected_columns.induct) (auto simp: inferred_column_def)

lemma lower_id: "lower ''id'' = ''id''"
  by code_simp

lemma delete_front_mset:
  "distinct (map fst r) \<Longrightarrow> map_of r k = Some c \<Longrightarrow> mset ((k, c) # AList.delete k r) = mset r"
proof (induction r)
  case Nil
  then show ?case by simp
next
  case (Cons p r)
  show ?case
  proof (cases "fst p = k")
    case True
    with Cons.prems have "p = (k, c)" by (cases p) auto
    moreover have "AList.delete k r = r"
      using Cons.prems(1) True by (simp add: delete_notin_dom image_iff delete_id)
    ultimately show ?thesis by (simp add: AList.delete_eq)
  next
    case False
    with Cons have "mset ((k, c) # AList.delete k r) = mset r" by (cases p) auto
    with False show ?thesis by (cases p) (auto simp: AList.delete_eq)
  qed
qed


lemma infer_schema_columns:
  assumes "distinct (map fst sample)"
      and "infer_schema_from_data eid t (sample # rest) = Inr s"
  shows "mset (ts_columns s)
         = mset (map snd (expected_columns (''id'' \<in> set (map fst sample)) 0 sample))"
proof -
  define h where "h = (''id'' \<in> set (map fst sample))"
  define er where "er = expected_columns h 0 sample"
  have e: "infer_schema_from_data eid t (sample # rest) =
     (case infer_columns h sample [] of
        Inl x \<Rightarrow> Inl x
      | Inr cd \<Rightarrow>
          mk_TableSchema t
            (map snd (if h then (case map_of cd ''id'' of
                                   Some id_col \<Rightarrow> (''id'', id_col) # AList.delete ''id'' cd
                                 | None \<Rightarrow> cd)
                      else cd)) eid)"
    unfolding h_def infer_schema_from_data_def by (simp only: Let_def list.case)
  obtain r where r: "infer_columns h sample [] = Inr r"
    using assms(2) unfolding e by (auto split: sum.splits)
  have re: "r = er" using infer_columns_distinct[OF _ r] assms(1) by (simp add: er_def)
  have keys: "map fst er = map fst sample" by (simp add: er_def)
  have dr: "distinct (map fst er)" using assms(1) keys by simp
  define reordered where "reordered =
     (if h then (case map_of er ''id'' of
                    Some id_col \<Rightarrow> (''id'', id_col) # AList.delete ''id'' er
                  | None \<Rightarrow> er)
      else er)"
  have mk: "mk_TableSchema t (map snd reordered) eid = Inr s"
    using assms(2) r re unfolding e reordered_def by simp
  have ne: "sample \<noteq> []"
  proof
    assume "sample = []"
    then have "er = []" by (simp add: er_def)
    then have "reordered = []" by (simp add: reordered_def)
    with mk show False
      by (auto simp: mk_TableSchema_def validate_columns_def split: sum.splits)
  qed
  have idc: "\<exists>c. map_of er ''id'' = Some c" if "h"
  proof -
    from that have "''id'' \<in> fst ` set er"
      using keys unfolding h_def by (metis list.set_map)
    then show ?thesis by (metis domD dom_map_of_conv_image_fst)
  qed
  have perm: "mset reordered = mset er"
  proof (cases h)
    case False
    then show ?thesis by (simp add: reordered_def)
  next
    case True
    from idc[OF True] obtain c where c: "map_of er ''id'' = Some c" by blast
    with True have "reordered = (''id'', c) # AList.delete ''id'' er" by (simp add: reordered_def)
    then show ?thesis using delete_front_mset[OF dr c] by simp
  qed
  have pk: "\<exists>c \<in> set (map snd reordered). primary_key c"
  proof (cases h)
    case True
    from idc[OF True] obtain c where c: "map_of er ''id'' = Some c" by blast
    then have "(''id'', c) \<in> set (expected_columns True 0 sample)"
      using True by (auto simp: er_def dest: map_of_SomeD)
    from expected_columns_id_primary[OF this] have "primary_key c" by (simp add: lower_id)
    moreover from True c have "reordered = (''id'', c) # AList.delete ''id'' er"
      by (simp add: reordered_def)
    ultimately show ?thesis by simp
  next
    case False
    obtain k v xs where "sample = (k, v) # xs" using ne by (cases sample) auto
    with False show ?thesis by (simp add: reordered_def er_def inferred_column_def)
  qed
  have "validate_columns (map snd reordered) = Inr (map snd reordered)"
    using pk by (auto simp: validate_columns_def filter_empty_conv)
  with mk have "ts_columns s = map snd reordered"
    by (auto simp: mk_TableSchema_def split: sum.splits)
  then have "mset (ts_columns s) = mset (map snd er)" using perm by (metis mset_map)
  then show ?thesis by (simp only: er_def h_def)
qed

text \<open>
  C4, as the code has it. For a batch whose first record has no repeated key and on which
  the inference succeeds, the schema depends on the first record only, and its columns are
  exactly the fields of that record, each under its normalised name and with the type of
  its value: a boolean gives \<open>boolean\<close>, an integer \<open>bigint\<close>, a float \<open>real\<close>, a
  \<^verbatim>\<open>datetime\<close> object \<open>timestamp\<close>, and every string, whether or not it reads as a
  date, like every other value, gives \<open>text\<close>.
\<close>

theorem inferred_types_follow_first_record:
  assumes "distinct (map fst sample)"
      and "infer_schema_from_data eid t (sample # rest) = Inr s"
  shows "infer_schema_from_data eid t (sample # rest) = infer_schema_from_data eid t [sample]
       \<and> mset (map (\<lambda>c. (col_name c, col_type c)) (ts_columns s))
           = mset (map (\<lambda>(k, v). (replace_space (lower (strip k)), pg_type v)) sample)
       \<and> (\<forall>b. pg_type (PBool b) = BOOLEAN)
       \<and> (\<forall>i. pg_type (PInt i) = BIGINT)
       \<and> (\<forall>f. pg_type (PFloat f) = REAL)
       \<and> (\<forall>d. pg_type (PDatetime d) = TIMESTAMP)
       \<and> (\<forall>x. pg_type (PStr x) = TEXT)
       \<and> pg_type PNone = TEXT
       \<and> (\<forall>l. pg_type (PList l) = TEXT)
       \<and> (\<forall>d. pg_type (PDict d) = TEXT)"
proof -
  have a: "infer_schema_from_data eid t (sample # rest) = infer_schema_from_data eid t [sample]"
    by (simp add: infer_schema_from_data_def)
  have "mset (map (\<lambda>c. (col_name c, col_type c)) (ts_columns s))
        = mset (map (\<lambda>c. (col_name c, col_type c))
                  (map snd (expected_columns (''id'' \<in> set (map fst sample)) 0 sample)))"
    using infer_schema_columns[OF assms] by (metis mset_map)
  then have b: "mset (map (\<lambda>c. (col_name c, col_type c)) (ts_columns s))
           = mset (map (\<lambda>(k, v). (replace_space (lower (strip k)), pg_type v)) sample)"
    by (simp only: expected_columns_types)
  show ?thesis using a b by simp
qed

theorem inferred_types_follow_first_record_witness:
  "distinct (map fst events_sample)
   \<and> infer_schema_from_data ''acme'' ''events'' (events_sample # [[(''id'', PStr ''x'')]])
       = Inr events_inferred
   \<and> mset (map (\<lambda>c. (col_name c, col_type c)) (ts_columns events_inferred))
       = mset (map (\<lambda>(k, v). (replace_space (lower (strip k)), pg_type v)) events_sample)"
proof -
  have h1: "distinct (map fst events_sample)" by code_simp
  have h2: "infer_schema_from_data ''acme'' ''events'' (events_sample # [[(''id'', PStr ''x'')]])
       = Inr events_inferred"
    by code_simp
  note c = inferred_types_follow_first_record[OF h1 h2]
  show ?thesis by (intro conjI h1 h2 c[THEN conjunct2, THEN conjunct1])
qed

text \<open>
  A string that reads as an ISO date and time is given the type \<open>text\<close>, not
  \<open>timestamp\<close>.
\<close>

theorem date_string_inferred_as_text:
  "infer_schema_from_data ''acme'' ''events'' [[(''created_at'', PStr ''2024-01-15T10:30:00'')]]
     = Inr \<lparr>ts_name = ''events'',
            ts_columns = [\<lparr>col_name = ''created_at'', col_type = TEXT, nullable = True,
                           primary_key = True, unique_flag = False, default_value = None,
                           max_length = None\<rparr>],
            ts_client_id = ''acme''\<rparr>
   \<and> TEXT \<noteq> TIMESTAMP"
  by code_simp

section \<open>Properties of the service\<close>

lemma queries_of_append [simp]: "queries_of (a @ b) = queries_of a @ queries_of b"
  by (induction a rule: queries_of.induct) simp_all

lemma statements_of_append [simp]: "statements_of (a @ b) = statements_of a @ statements_of b"
  by (induction a rule: statements_of.induct) simp_all

lemma writes_of_append [simp]: "writes_of (a @ b) = writes_of a @ writes_of b"
  by (induction a rule: writes_of.induct) simp_all

lemma control_of_append [simp]: "control_of (a @ b) = control_of a @ control_of b"
  by (induction a rule: control_of.induct) simp_all

lemma execute_query_trace:
  assumes "execute_query env tr eid q = (r, tr')"
  shows "queries_of tr' = queries_of tr @ [q]"
    and "writes_of tr' = writes_of tr"
    and "control_of tr' = control_of tr"
    and "set (statements_of tr') \<subseteq> set (statements_of tr) \<union> {q, notify_sql}"
    and "\<exists>ev. tr' = tr @ ExecuteQuery eid q # ev"
  using assms
  by (auto simp: execute_query_def Let_def split: if_splits option.splits sum.splits)

lemma table_exists_postgres_eq:
  "table_exists_postgres env tr eid t =
     (case fst (execute_query env tr eid (probe_sql t)) of Inr _ \<Rightarrow> True | Inl _ \<Rightarrow> False,
      snd (execute_query env tr eid (probe_sql t)))"
  by (auto simp: table_exists_postgres_def split: prod.splits sum.splits)

lemma table_exists_postgres_trace:
  assumes "table_exists_postgres env tr eid t = (b, tr')"
  shows "queries_of tr' = queries_of tr @ [probe_sql t]"
    and "writes_of tr' = writes_of tr"
    and "control_of tr' = control_of tr"
    and "\<exists>ev. tr' = tr @ ExecuteQuery eid (probe_sql t) # ev"
proof -
  obtain r where "execute_query env tr eid (probe_sql t) = (r, tr')"
    using assms by (auto simp: table_exists_postgres_def split: prod.splits sum.splits if_splits)
  from execute_query_trace[OF this]
  show "queries_of tr' = queries_of tr @ [probe_sql t]"
    and "writes_of tr' = writes_of tr"
    and "control_of tr' = control_of tr"
    and "\<exists>ev. tr' = tr @ ExecuteQuery eid (probe_sql t) # ev"
    by simp_all
qed

lemma get_table_schema_from_db_trace:
  assumes "get_table_schema_from_db env tr eid t = (r, tr')"
  shows "queries_of tr' = queries_of tr @ [columns_sql t]"
    and "writes_of tr' = writes_of tr"
    and "control_of tr' = control_of tr"
    and "set (statements_of tr') \<subseteq> set (statements_of tr) \<union> {columns_sql t, notify_sql}"
proof -
  obtain r0 where "execute_query env tr eid (columns_sql t) = (r0, tr')"
    using assms
    by (auto simp: get_table_schema_from_db_def split: prod.splits sum.splits option.splits)
  from execute_query_trace[OF this]
  show "queries_of tr' = queries_of tr @ [columns_sql t]"
    and "writes_of tr' = writes_of tr"
    and "control_of tr' = control_of tr"
    and "set (statements_of tr') \<subseteq> set (statements_of tr) \<union> {columns_sql t, notify_sql}"
    by simp_all
qed

lemma get_primary_key_column_trace:
  assumes "get_primary_key_column env tr eid t = (r, tr')"
  shows "queries_of tr' = queries_of tr @ [pk_sql t]"
    and "writes_of tr' = writes_of tr"
    and "control_of tr' = control_of tr"
    and "tr' = snd (execute_query env tr eid (pk_sql t))"
proof -
  obtain r0 where e: "execute_query env tr eid (pk_sql t) = (r0, tr')"
    using assms
    by (auto simp: get_primary_key_column_def split: prod.splits sum.splits option.splits list.splits)
  from execute_query_trace[OF this] e
  show "queries_of tr' = queries_of tr @ [pk_sql t]"
    and "writes_of tr' = writes_of tr"
    and "control_of tr' = control_of tr"
    and "tr' = snd (execute_query env tr eid (pk_sql t))"
    by simp_all
qed

lemma alter_loop_trace:
  assumes "alter_loop env tr eid t ex cols = (r, tr')"
  shows "writes_of tr' = writes_of tr \<and> control_of tr' = control_of tr
       \<and> (\<exists>n. queries_of tr' = queries_of tr @ take n (map (alter_sql t) (missing_columns ex cols)))
       \<and> (r = Inr () \<longrightarrow> queries_of tr' = queries_of tr @ map (alter_sql t) (missing_columns ex cols))
       \<and> set (statements_of tr') \<subseteq> set (statements_of tr) \<union> {notify_sql}
            \<union> set (map (alter_sql t) (missing_columns ex cols))"
  using assms
proof (induction cols arbitrary: tr)
  case Nil
  then show ?case by (auto simp: missing_columns_def)
next
  case (Cons c cols)
  show ?case
  proof (cases "col_name c \<in> set ex")
    case True
    with Cons.prems have "alter_loop env tr eid t ex cols = (r, tr')" by simp
    from Cons.IH[OF this] True show ?thesis by (simp add: missing_columns_def)
  next
    case False
    obtain r1 tr1 where e: "execute_query env tr eid (alter_sql t c) = (r1, tr1)"
      by (cases "execute_query env tr eid (alter_sql t c)")
    note t1 = execute_query_trace[OF e]
    have m: "missing_columns ex (c # cols) = c # missing_columns ex cols"
      using False by (simp add: missing_columns_def)
    show ?thesis
    proof (cases r1)
      case (Inl x)
      with Cons.prems False e have "r = Inl (Db x)" "tr' = tr1" by simp_all
      moreover have "queries_of tr1 = queries_of tr @ take 1 (map (alter_sql t) (c # missing_columns ex cols))"
        using t1 by simp
      ultimately show ?thesis using t1 unfolding m by (auto simp del: take_Suc_Cons)
    next
      case (Inr y)
      with Cons.prems False e have l: "alter_loop env tr1 eid t ex cols = (r, tr')" by simp
      note ih = Cons.IH[OF l]
      from ih obtain n where n: "queries_of tr' = queries_of tr1 @ take n (map (alter_sql t) (missing_columns ex cols))"
        by blast
      have "queries_of tr' = queries_of tr @ take (Suc n) (map (alter_sql t) (c # missing_columns ex cols))"
        using n t1 by simp
      then have ex1: "\<exists>n. queries_of tr' = queries_of tr @ take n (map (alter_sql t) (missing_columns ex (c # cols)))"
        unfolding m by blast
      show ?thesis using ih t1 ex1 unfolding m by auto
    qed
  qed
qed


lemma compare_and_alter_table_trace:
  assumes "compare_and_alter_table env tr eid t s = (r, tr')"
  shows "writes_of tr' = writes_of tr" and "control_of tr' = control_of tr"
proof -
  obtain r0 tr0 where g: "get_table_schema_from_db env tr eid t = (r0, tr0)"
    by (cases "get_table_schema_from_db env tr eid t")
  note t0 = get_table_schema_from_db_trace[OF g]
  show "writes_of tr' = writes_of tr" and "control_of tr' = control_of tr"
    using assms g t0 alter_loop_trace
    by (auto simp: compare_and_alter_table_def split: sum.splits)
qed

lemma create_table_and_verify_trace:
  assumes "create_table_and_verify env tr eid t s = (out, tr')"
  shows "writes_of tr' = writes_of tr"
    and "control_of tr' = control_of tr \<or> control_of tr' = control_of tr @ recovery_calls eid"
proof -
  obtain r1 tr1 where e1: "execute_query env tr eid (get_create_table_sql s) = (r1, tr1)"
    by (cases "execute_query env tr eid (get_create_table_sql s)")
  obtain r2 tr2 where e2: "execute_query env tr1 eid notify_sql = (r2, tr2)"
    by (cases "execute_query env tr1 eid notify_sql")
  obtain b tr5 where e3: "table_exists_postgres env
       (tr2 @ [InvalidateClientConnection eid, Sleep 1, GetClientConnection eid]) eid t = (b, tr5)"
    by (cases "table_exists_postgres env
       (tr2 @ [InvalidateClientConnection eid, Sleep 1, GetClientConnection eid]) eid t")
  note t1 = execute_query_trace(2,3)[OF e1]
  note t2 = execute_query_trace(2,3)[OF e2]
  note t3 = table_exists_postgres_trace(2,3)[OF e3]
  show "writes_of tr' = writes_of tr"
    using assms e1 e2 e3 t1 t2 t3
    by (auto simp: create_table_and_verify_def Let_def split: sum.splits if_splits bool.splits)
  show "control_of tr' = control_of tr \<or> control_of tr' = control_of tr @ recovery_calls eid"
    using assms e1 e2 e3 t1 t2 t3
    by (auto simp: create_table_and_verify_def Let_def recovery_calls_def
             split: sum.splits if_splits bool.splits)
qed

lemma prepare_table_trace:
  assumes "prepare_table env eid t data = (out, tr)"
  shows "writes_of tr = []
       \<and> (control_of tr = [GetClientConnection eid]
          \<or> control_of tr = GetClientConnection eid # recovery_calls eid)"
proof (cases "client_connection env [] eid")
  case False
  with assms show ?thesis by (auto simp: prepare_table_def)
next
  case True
  obtain b tr1 where e1: "table_exists_postgres env [GetClientConnection eid] eid t = (b, tr1)"
    by (cases "table_exists_postgres env [GetClientConnection eid] eid t")
  have w1: "writes_of tr1 = []" and c1: "control_of tr1 = [GetClientConnection eid]"
    using table_exists_postgres_trace(2,3)[OF e1] by simp_all
  show ?thesis
  proof (cases "infer_schema_from_data eid t data")
    case (Inl e)
    with assms True e1 have "tr = tr1" by (simp add: prepare_table_def)
    with w1 c1 show ?thesis by simp
  next
    case (Inr s)
    show ?thesis
    proof (cases b)
      case False
      with assms True e1 Inr have "create_table_and_verify env tr1 eid t s = (out, tr)"
        by (simp add: prepare_table_def)
      from create_table_and_verify_trace[OF this] w1 c1 show ?thesis by auto
    next
      case b: True
      obtain r2 tr2 where c: "compare_and_alter_table env tr1 eid t s = (r2, tr2)"
        by (cases "compare_and_alter_table env tr1 eid t s")
      with assms True e1 Inr b have "tr = tr2"
        by (auto simp: prepare_table_def split: sum.splits)
      with compare_and_alter_table_trace[OF c] w1 c1 show ?thesis by simp
    qed
  qed
qed

lemma write_records_trace:
  assumes "write_records env tr eid t data = (res, tr')"
  shows "control_of tr' = control_of tr" and "\<exists>w. writes_of tr' = writes_of tr @ [w]"
proof -
  obtain pk tr1 where g: "get_primary_key_column env tr eid t = (pk, tr1)"
    by (cases "get_primary_key_column env tr eid t")
  note t1 = get_primary_key_column_trace(2,3)[OF g]
  show "control_of tr' = control_of tr" and "\<exists>w. writes_of tr' = writes_of tr @ [w]"
    using assms g t1
    by (auto simp: write_records_def Let_def split: sum.splits if_splits)
qed

lemma upsert_data_control:
  "prefix (control_of (snd (upsert_data env eid t data))) (GetClientConnection eid # recovery_calls eid)"
proof (cases "data = []")
  case True
  then show ?thesis by (simp add: upsert_data_def)
next
  case False
  obtain out tr where p: "prepare_table env eid t data = (out, tr)"
    by (cases "prepare_table env eid t data")
  obtain res tr' where w: "write_records env tr eid t data = (res, tr')"
    by (cases "write_records env tr eid t data")
  have "control_of (snd (upsert_data env eid t data)) = control_of tr"
    using False p w write_records_trace(1)[OF w]
    by (cases out) (simp_all add: upsert_data_def)
  with prepare_table_trace[OF p] show ?thesis
    by (auto simp: recovery_calls_def)
qed


lemma get_primary_key_column_extends:
  "\<exists>ev. snd (get_primary_key_column env tr eid t) = tr @ ev"
proof -
  obtain r tr' where g: "get_primary_key_column env tr eid t = (r, tr')"
    by (cases "get_primary_key_column env tr eid t")
  obtain r0 tr0 where e: "execute_query env tr eid (pk_sql t) = (r0, tr0)"
    by (cases "execute_query env tr eid (pk_sql t)")
  from get_primary_key_column_trace(4)[OF g] e execute_query_trace(5)[OF e] g
  show ?thesis by auto
qed

lemma write_records_extends:
  "\<exists>ev. snd (write_records env tr eid t data) = tr @ ev"
proof -
  obtain pk tr1 where g: "get_primary_key_column env tr eid t = (pk, tr1)"
    by (cases "get_primary_key_column env tr eid t")
  from get_primary_key_column_extends[of env tr eid t] g obtain ev where "tr1 = tr @ ev" by auto
  with g show ?thesis
    by (auto simp: write_records_def Let_def split: sum.splits)
qed

lemma create_table_and_verify_extends:
  "\<exists>ev. snd (create_table_and_verify env tr eid t s)
          = tr @ ExecuteQuery eid (get_create_table_sql s) # ev"
proof -
  obtain r1 tr1 where e1: "execute_query env tr eid (get_create_table_sql s) = (r1, tr1)"
    by (cases "execute_query env tr eid (get_create_table_sql s)")
  obtain r2 tr2 where e2: "execute_query env tr1 eid notify_sql = (r2, tr2)"
    by (cases "execute_query env tr1 eid notify_sql")
  obtain b tr5 where e3: "table_exists_postgres env
       (tr2 @ [InvalidateClientConnection eid, Sleep 1, GetClientConnection eid]) eid t = (b, tr5)"
    by (cases "table_exists_postgres env
       (tr2 @ [InvalidateClientConnection eid, Sleep 1, GetClientConnection eid]) eid t")
  from execute_query_trace(5)[OF e1] obtain ev1
    where v1: "tr1 = tr @ ExecuteQuery eid (get_create_table_sql s) # ev1" by blast
  from execute_query_trace(5)[OF e2] obtain ev2
    where v2: "tr2 = tr1 @ ExecuteQuery eid notify_sql # ev2" by blast
  from table_exists_postgres_trace(4)[OF e3] obtain ev3
    where v3: "tr5 = (tr2 @ [InvalidateClientConnection eid, Sleep 1, GetClientConnection eid])
                     @ ExecuteQuery eid (probe_sql t) # ev3" by blast
  show ?thesis
    using e1 e2 e3 v1 v2 v3
    by (auto simp: create_table_and_verify_def Let_def split: sum.splits bool.splits)
qed

text \<open>
  C9. The existence probe returns a truth value for every tenant and table: \<open>True\<close>
  exactly when \<^verbatim>\<open>execute_query\<close> returns without raising on the probe statement, \<open>False\<close>
  when it raises, whatever the exception. In \<^verbatim>\<open>upsert_data\<close> a probe that raised is
  therefore followed by the create statement of the inferred schema, as for an absent table.
\<close>

theorem table_exists_postgres_never_raises:
  assumes "data \<noteq> []"
      and "client_connection env [] eid"
      and "execute_query env [GetClientConnection eid] eid (probe_sql t) = (Inl e, tr1)"
      and "infer_schema_from_data eid t data = Inr s"
  shows "(\<forall>tr r tr'. execute_query env tr eid (probe_sql t) = (r, tr') \<longrightarrow>
            table_exists_postgres env tr eid t
              = ((case r of Inr _ \<Rightarrow> True | Inl _ \<Rightarrow> False), tr'))
       \<and> table_exists_postgres env [GetClientConnection eid] eid t = (False, tr1)
       \<and> (\<exists>rest. snd (upsert_data env eid t data)
                    = tr1 @ ExecuteQuery eid (get_create_table_sql s) # rest)"
proof (intro conjI)
  show "\<forall>tr r tr'. execute_query env tr eid (probe_sql t) = (r, tr') \<longrightarrow>
            table_exists_postgres env tr eid t
              = ((case r of Inr _ \<Rightarrow> True | Inl _ \<Rightarrow> False), tr')"
    by (auto simp: table_exists_postgres_def split: sum.splits)
  show ex: "table_exists_postgres env [GetClientConnection eid] eid t = (False, tr1)"
    using assms(3) by (simp add: table_exists_postgres_def)
  obtain out tr2 where c: "create_table_and_verify env tr1 eid t s = (out, tr2)"
    by (cases "create_table_and_verify env tr1 eid t s")
  from create_table_and_verify_extends[of env tr1 eid t s] c obtain ev
    where ev: "tr2 = tr1 @ ExecuteQuery eid (get_create_table_sql s) # ev" by auto
  have p: "prepare_table env eid t data = (out, tr2)"
    using assms ex c by (simp add: prepare_table_def)
  show "\<exists>rest. snd (upsert_data env eid t data)
                    = tr1 @ ExecuteQuery eid (get_create_table_sql s) # rest"
  proof (cases out)
    case (Raised x)
    with p assms(1) ev show ?thesis by (simp add: upsert_data_def)
  next
    case (Returned x)
    with p assms(1) ev show ?thesis by (simp add: upsert_data_def)
  next
    case Next
    from write_records_extends[of env tr2 eid t data] obtain ev'
      where "snd (write_records env tr2 eid t data) = tr2 @ ev'" by blast
    with Next p assms(1) ev show ?thesis by (simp add: upsert_data_def)
  qed
qed

theorem table_exists_postgres_never_raises_witness:
  "orders_data \<noteq> []
   \<and> client_connection env_unreachable [] ''acme''
   \<and> execute_query env_unreachable [GetClientConnection ''acme''] ''acme'' (probe_sql ''orders'')
       = (Inl (DbExn ''connection reset by peer''),
          GetClientConnection ''acme'' # fetch_events ''acme'' (probe_sql ''orders''))
   \<and> infer_schema_from_data ''acme'' ''orders'' orders_data = Inr orders_inferred
   \<and> table_exists_postgres env_unreachable [GetClientConnection ''acme''] ''acme'' ''orders''
       = (False, GetClientConnection ''acme'' # fetch_events ''acme'' (probe_sql ''orders''))
   \<and> (\<exists>rest. snd (upsert_data env_unreachable ''acme'' ''orders'' orders_data)
         = (GetClientConnection ''acme'' # fetch_events ''acme'' (probe_sql ''orders''))
           @ ExecuteQuery ''acme'' (get_create_table_sql orders_inferred) # rest)"
proof -
  have h1: "orders_data \<noteq> []" by code_simp
  have h2: "client_connection env_unreachable [] ''acme''" by code_simp
  have h3: "execute_query env_unreachable [GetClientConnection ''acme''] ''acme'' (probe_sql ''orders'')
       = (Inl (DbExn ''connection reset by peer''),
          GetClientConnection ''acme'' # fetch_events ''acme'' (probe_sql ''orders''))"
    by code_simp
  have h4: "infer_schema_from_data ''acme'' ''orders'' orders_data = Inr orders_inferred"
    by code_simp
  note c = table_exists_postgres_never_raises[OF h1 h2 h3 h4]
  show ?thesis
    by (intro conjI h1 h2 h3 h4 c[THEN conjunct2, THEN conjunct1] c[THEN conjunct2, THEN conjunct2])
qed

lemma upsert_data_write_step:
  assumes "data \<noteq> []"
      and "prepare_table env eid t data = (Next, tr)"
      and "get_primary_key_column env tr eid t = (pk, tr')"
  shows "snd (upsert_data env eid t data) = tr' @ [ClientWrite (write_op_for pk t data)]"
    and "writes_of (snd (upsert_data env eid t data)) = [write_op_for pk t data]"
proof -
  show a: "snd (upsert_data env eid t data) = tr' @ [ClientWrite (write_op_for pk t data)]"
    using assms by (auto simp: upsert_data_def write_records_def Let_def split: sum.splits)
  have "writes_of tr' = []"
    using prepare_table_trace[OF assms(2)] get_primary_key_column_trace(2)[OF assms(3)] by simp
  then show "writes_of (snd (upsert_data env eid t data)) = [write_op_for pk t data]"
    unfolding a by simp
qed

text \<open>
  C1. Once the table is prepared, the write is decided by the answer of the catalog query
  for the live primary key: a first row naming a column makes the whole batch one upsert
  with that column as conflict target, an empty answer makes it one plain insert. The
  inferred schema plays no part. (Column names of the catalog are never empty.)
\<close>

theorem write_uses_live_primary_key:
  assumes "data \<noteq> []"
      and "prepare_table env eid t data = (Next, tr)"
      and "execute_query env tr eid (pk_sql t) = (r, tr')"
  shows "(\<forall>row rows pk.
            r = Inr (Some (row # rows)) \<and> map_of row ''column_name'' = Some pk \<and> pk \<noteq> [] \<longrightarrow>
              snd (upsert_data env eid t data) = tr' @ [ClientWrite (Upsert t data pk)]
              \<and> writes_of (snd (upsert_data env eid t data)) = [Upsert t data pk])
       \<and> (r = Inr (Some []) \<longrightarrow>
              snd (upsert_data env eid t data) = tr' @ [ClientWrite (Insert t data)]
              \<and> writes_of (snd (upsert_data env eid t data)) = [Insert t data])"
proof (intro conjI allI impI)
  fix row rows pk
  assume h: "r = Inr (Some (row # rows)) \<and> map_of row ''column_name'' = Some pk \<and> pk \<noteq> []"
  with assms(3) have g: "get_primary_key_column env tr eid t = (Some pk, tr')"
    by (simp add: get_primary_key_column_def)
  from upsert_data_write_step[OF assms(1,2) g] h
  show "snd (upsert_data env eid t data) = tr' @ [ClientWrite (Upsert t data pk)]"
    and "writes_of (snd (upsert_data env eid t data)) = [Upsert t data pk]"
    by (simp_all add: write_op_for_def)
next
  assume h: "r = Inr (Some [])"
  with assms(3) have g: "get_primary_key_column env tr eid t = (None, tr')"
    by (simp add: get_primary_key_column_def)
  from upsert_data_write_step[OF assms(1,2) g]
  show "snd (upsert_data env eid t data) = tr' @ [ClientWrite (Insert t data)]"
    and "writes_of (snd (upsert_data env eid t data)) = [Insert t data]"
    by (simp_all add: write_op_for_def)
qed

theorem write_uses_live_primary_key_witness:
  "orders_data \<noteq> []
   \<and> prepare_table env_live_key ''acme'' ''orders'' orders_data
       = (Next, GetClientConnection ''acme'' # fetch_events ''acme'' (probe_sql ''orders'')
                  @ fetch_events ''acme'' (columns_sql ''orders''))
   \<and> execute_query env_live_key
         (GetClientConnection ''acme'' # fetch_events ''acme'' (probe_sql ''orders'')
            @ fetch_events ''acme'' (columns_sql ''orders''))
         ''acme'' (pk_sql ''orders'')
       = (Inr (Some [[(''column_name'', ''codigo'')]]),
          (GetClientConnection ''acme'' # fetch_events ''acme'' (probe_sql ''orders'')
            @ fetch_events ''acme'' (columns_sql ''orders''))
          @ fetch_events ''acme'' (pk_sql ''orders''))
   \<and> map_of [(''column_name'', ''codigo'')] ''column_name'' = Some ''codigo''
   \<and> ''codigo'' \<noteq> []
   \<and> writes_of (snd (upsert_data env_live_key ''acme'' ''orders'' orders_data))
       = [Upsert ''orders'' orders_data ''codigo'']"
proof -
  have h1: "orders_data \<noteq> []" by code_simp
  have h2: "prepare_table env_live_key ''acme'' ''orders'' orders_data
       = (Next, GetClientConnection ''acme'' # fetch_events ''acme'' (probe_sql ''orders'')
                  @ fetch_events ''acme'' (columns_sql ''orders''))"
    by code_simp
  have h3: "execute_query env_live_key
         (GetClientConnection ''acme'' # fetch_events ''acme'' (probe_sql ''orders'')
            @ fetch_events ''acme'' (columns_sql ''orders''))
         ''acme'' (pk_sql ''orders'')
       = (Inr (Some [[(''column_name'', ''codigo'')]]),
          (GetClientConnection ''acme'' # fetch_events ''acme'' (probe_sql ''orders'')
            @ fetch_events ''acme'' (columns_sql ''orders''))
          @ fetch_events ''acme'' (pk_sql ''orders''))"
    by code_simp
  have h4: "map_of [(''column_name'', ''codigo'')] ''column_name'' = Some ''codigo''" by simp
  have h5: "''codigo'' \<noteq> []" by simp
  from write_uses_live_primary_key[OF h1 h2 h3] h4 h5
  have c: "writes_of (snd (upsert_data env_live_key ''acme'' ''orders'' orders_data))
       = [Upsert ''orders'' orders_data ''codigo'']"
    by blast
  show ?thesis by (intro conjI h1 h2 h3 h4 h5 c)
qed

text \<open>
  C10. The primary-key resolver returns \<^verbatim>\<open>None\<close> when the catalog query raises, as it
  does when the answer has no row. In \<^verbatim>\<open>upsert_data\<close> the batch is then written as a
  plain insert, and the call succeeds when that insert returns rows.
\<close>

theorem primary_key_failure_downgrades_to_insert:
  assumes "data \<noteq> []"
      and "prepare_table env eid t data = (Next, tr)"
      and "execute_query env tr eid (pk_sql t) = (Inl e, tr')"
  shows "get_primary_key_column env tr eid t = (None, tr')
       \<and> (\<forall>tr0 tr1. execute_query env tr0 eid (pk_sql t) = (Inr (Some []), tr1) \<longrightarrow>
             get_primary_key_column env tr0 eid t = (None, tr1))
       \<and> snd (upsert_data env eid t data) = tr' @ [ClientWrite (Insert t data)]
       \<and> writes_of (snd (upsert_data env eid t data)) = [Insert t data]
       \<and> (\<forall>resp. client_write env tr' (Insert t data) = Inr resp \<and> resp_data resp \<noteq> [] \<longrightarrow>
             fst (upsert_data env eid t data)
               = (True, MsgWritten (length (resp_data resp)) t, length (resp_data resp)))"
proof -
  have g: "get_primary_key_column env tr eid t = (None, tr')"
    using assms(3) by (simp add: get_primary_key_column_def)
  have n: "\<forall>tr0 tr1. execute_query env tr0 eid (pk_sql t) = (Inr (Some []), tr1) \<longrightarrow>
             get_primary_key_column env tr0 eid t = (None, tr1)"
    by (simp add: get_primary_key_column_def)
  have w: "write_op_for None t data = Insert t data" by (simp add: write_op_for_def)
  note st = upsert_data_write_step[OF assms(1,2) g, unfolded w]
  have r: "\<forall>resp. client_write env tr' (Insert t data) = Inr resp \<and> resp_data resp \<noteq> [] \<longrightarrow>
             fst (upsert_data env eid t data)
               = (True, MsgWritten (length (resp_data resp)) t, length (resp_data resp))"
    using assms(1,2) g w by (auto simp: upsert_data_def write_records_def Let_def)
  show ?thesis using g n st r by blast
qed

theorem primary_key_failure_downgrades_to_insert_witness:
  "orders_data \<noteq> []
   \<and> prepare_table env_pk_unavailable ''acme'' ''orders'' orders_data
       = (Next, GetClientConnection ''acme'' # fetch_events ''acme'' (probe_sql ''orders'')
                  @ fetch_events ''acme'' (columns_sql ''orders''))
   \<and> execute_query env_pk_unavailable
         (GetClientConnection ''acme'' # fetch_events ''acme'' (probe_sql ''orders'')
            @ fetch_events ''acme'' (columns_sql ''orders''))
         ''acme'' (pk_sql ''orders'')
       = (Inl (DbExn ''statement timeout''),
          (GetClientConnection ''acme'' # fetch_events ''acme'' (probe_sql ''orders'')
            @ fetch_events ''acme'' (columns_sql ''orders''))
          @ fetch_events ''acme'' (pk_sql ''orders''))
   \<and> writes_of (snd (upsert_data env_pk_unavailable ''acme'' ''orders'' orders_data))
       = [Insert ''orders'' orders_data]
   \<and> fst (upsert_data env_pk_unavailable ''acme'' ''orders'' orders_data)
       = (True, MsgWritten 2 ''orders'', 2)"
proof -
  have h1: "orders_data \<noteq> []" by code_simp
  have h2: "prepare_table env_pk_unavailable ''acme'' ''orders'' orders_data
       = (Next, GetClientConnection ''acme'' # fetch_events ''acme'' (probe_sql ''orders'')
                  @ fetch_events ''acme'' (columns_sql ''orders''))"
    by code_simp
  have h3: "execute_query env_pk_unavailable
         (GetClientConnection ''acme'' # fetch_events ''acme'' (probe_sql ''orders'')
            @ fetch_events ''acme'' (columns_sql ''orders''))
         ''acme'' (pk_sql ''orders'')
       = (Inl (DbExn ''statement timeout''),
          (GetClientConnection ''acme'' # fetch_events ''acme'' (probe_sql ''orders'')
            @ fetch_events ''acme'' (columns_sql ''orders''))
          @ fetch_events ''acme'' (pk_sql ''orders''))"
    by code_simp
  note c = primary_key_failure_downgrades_to_insert[OF h1 h2 h3]
  have w: "writes_of (snd (upsert_data env_pk_unavailable ''acme'' ''orders'' orders_data))
       = [Insert ''orders'' orders_data]"
    using c by blast
  have r: "client_write env_pk_unavailable
         ((GetClientConnection ''acme'' # fetch_events ''acme'' (probe_sql ''orders'')
            @ fetch_events ''acme'' (columns_sql ''orders''))
          @ fetch_events ''acme'' (pk_sql ''orders''))
         (Insert ''orders'' orders_data)
        = Inr \<lparr>resp_data = orders_data, resp_error = None\<rparr>"
    by code_simp
  have l: "length orders_data = 2" by code_simp
  have "fst (upsert_data env_pk_unavailable ''acme'' ''orders'' orders_data)
       = (True, MsgWritten (length (resp_data \<lparr>resp_data = orders_data, resp_error = None\<rparr>)) ''orders'',
          length (resp_data \<lparr>resp_data = orders_data, resp_error = None\<rparr>))"
    using c r h1 by (metis response.select_convs(1))
  then have f: "fst (upsert_data env_pk_unavailable ''acme'' ''orders'' orders_data)
       = (True, MsgWritten 2 ''orders'', 2)"
    using l by simp
  show ?thesis by (intro conjI h1 h2 h3 w f)
qed


text \<open>
  C2. When the first probe reports the table absent and the create statement and the
  reload notification are executed, the call goes on with one invalidation, one pause of
  one second, one new client and one more probe; when that probe reports the table absent
  again the call fails with zero rows and ends there: nothing is written, and the
  statements handed to \<^verbatim>\<open>execute_query\<close> are the probe, the create statement, one
  reload notification and the probe again. (\<^verbatim>\<open>execute_query\<close> itself also notifies after
  the create statement, as after every data-definition statement.) In every run, whatever
  the surroundings answer, the client, invalidation and pause calls are a prefix of that
  one cycle.
\<close>

theorem create_recovery_is_single_cycle:
  assumes "data \<noteq> []"
      and "client_connection env [] eid"
      and "table_exists_postgres env [GetClientConnection eid] eid t = (False, tr1)"
      and "infer_schema_from_data eid t data = Inr s"
      and "execute_query env tr1 eid (get_create_table_sql s) = (Inr r1, tr2)"
      and "execute_query env tr2 eid notify_sql = (Inr r2, tr3)"
      and "client_connection env (tr3 @ [InvalidateClientConnection eid, Sleep 1]) eid"
      and "table_exists_postgres env
             (tr3 @ [InvalidateClientConnection eid, Sleep 1, GetClientConnection eid]) eid t
           = (False, tr4)"
  shows "upsert_data env eid t data = ((False, MsgCreateFailed t, 0), tr4)
       \<and> writes_of tr4 = []
       \<and> queries_of tr4 = [probe_sql t, get_create_table_sql s, notify_sql, probe_sql t]
       \<and> control_of tr4 = [GetClientConnection eid, InvalidateClientConnection eid, Sleep 1,
                            GetClientConnection eid]
       \<and> (\<forall>env' data'. prefix (control_of (snd (upsert_data env' eid t data')))
             [GetClientConnection eid, InvalidateClientConnection eid, Sleep 1,
              GetClientConnection eid])"
proof -
  have c: "create_table_and_verify env tr1 eid t s = (Returned (False, MsgCreateFailed t, 0), tr4)"
    using assms(5-8) by (simp add: create_table_and_verify_def Let_def)
  have p: "prepare_table env eid t data = (Returned (False, MsgCreateFailed t, 0), tr4)"
    using assms(2-4) c by (simp add: prepare_table_def)
  have u: "upsert_data env eid t data = ((False, MsgCreateFailed t, 0), tr4)"
    using assms(1) p by (simp add: upsert_data_def)
  note a1 = table_exists_postgres_trace(1-3)[OF assms(3)]
  note a2 = execute_query_trace(1-3)[OF assms(5)]
  note a3 = execute_query_trace(1-3)[OF assms(6)]
  note a4 = table_exists_postgres_trace(1-3)[OF assms(8)]
  have w: "writes_of tr4 = []" using a1 a2 a3 a4 by simp
  have q: "queries_of tr4 = [probe_sql t, get_create_table_sql s, notify_sql, probe_sql t]"
    using a1 a2 a3 a4 by simp
  have k: "control_of tr4 = [GetClientConnection eid, InvalidateClientConnection eid, Sleep 1,
                            GetClientConnection eid]"
    using a1 a2 a3 a4 by simp
  have b: "\<forall>env' data'. prefix (control_of (snd (upsert_data env' eid t data')))
             [GetClientConnection eid, InvalidateClientConnection eid, Sleep 1,
              GetClientConnection eid]"
    using upsert_data_control[of _ eid t] by (simp add: recovery_calls_def)
  show ?thesis using u w q k b by blast
qed

theorem create_recovery_is_single_cycle_witness:
  "orders_data \<noteq> []
   \<and> client_connection env_absent [] ''acme''
   \<and> table_exists_postgres env_absent [GetClientConnection ''acme''] ''acme'' ''Orders''
       = (False, absent_tr1)
   \<and> infer_schema_from_data ''acme'' ''Orders'' orders_data = Inr orders_inferred
   \<and> execute_query env_absent absent_tr1 ''acme'' (get_create_table_sql orders_inferred)
       = (Inr (Some []), absent_tr2)
   \<and> execute_query env_absent absent_tr2 ''acme'' notify_sql = (Inr (Some []), absent_tr3)
   \<and> client_connection env_absent
         (absent_tr3 @ [InvalidateClientConnection ''acme'', Sleep 1]) ''acme''
   \<and> table_exists_postgres env_absent
         (absent_tr3 @ [InvalidateClientConnection ''acme'', Sleep 1, GetClientConnection ''acme''])
         ''acme'' ''Orders''
       = (False, absent_tr4)
   \<and> upsert_data env_absent ''acme'' ''Orders'' orders_data
       = ((False, MsgCreateFailed ''Orders'', 0), absent_tr4)
   \<and> writes_of absent_tr4 = []
   \<and> control_of absent_tr4
       = [GetClientConnection ''acme'', InvalidateClientConnection ''acme'', Sleep 1,
          GetClientConnection ''acme'']"
proof -
  have h1: "orders_data \<noteq> []" by code_simp
  have h2: "client_connection env_absent [] ''acme''" by code_simp
  have h3: "table_exists_postgres env_absent [GetClientConnection ''acme''] ''acme'' ''Orders''
       = (False, absent_tr1)" by code_simp
  have h4: "infer_schema_from_data ''acme'' ''Orders'' orders_data = Inr orders_inferred"
    by code_simp
  have h5: "execute_query env_absent absent_tr1 ''acme'' (get_create_table_sql orders_inferred)
       = (Inr (Some []), absent_tr2)" by code_simp
  have h6: "execute_query env_absent absent_tr2 ''acme'' notify_sql = (Inr (Some []), absent_tr3)"
    by code_simp
  have h7: "client_connection env_absent
         (absent_tr3 @ [InvalidateClientConnection ''acme'', Sleep 1]) ''acme''" by code_simp
  have h8: "table_exists_postgres env_absent
         (absent_tr3 @ [InvalidateClientConnection ''acme'', Sleep 1, GetClientConnection ''acme''])
         ''acme'' ''Orders''
       = (False, absent_tr4)" by code_simp
  note c = create_recovery_is_single_cycle[OF h1 h2 h3 h4 h5 h6 h7 h8]
  show ?thesis
    by (intro conjI h1 h2 h3 h4 h5 h6 h7 h8 c[THEN conjunct1]
          c[THEN conjunct2, THEN conjunct1]
          c[THEN conjunct2, THEN conjunct2, THEN conjunct2, THEN conjunct1])
qed

lemma alter_sql_not_notify: "alter_sql t c \<noteq> notify_sql"
  by (simp add: alter_sql_def notify_sql_def)

lemma execute_query_statements:
  assumes "\<forall>tr0. connection_pool env tr0 eid \<and> pool_acquire env tr0 = None"
      and "execute_query env tr eid q = (r, tr')"
      and "q \<noteq> notify_sql"
  shows "[x \<leftarrow> statements_of tr'. x \<noteq> notify_sql] = [x \<leftarrow> statements_of tr. x \<noteq> notify_sql] @ [q]"
  using assms
  by (auto simp: execute_query_def Let_def split: if_splits option.splits sum.splits)

lemma alter_loop_statements:
  assumes "\<forall>tr0. connection_pool env tr0 eid \<and> pool_acquire env tr0 = None"
      and "alter_loop env tr eid t ex cols = (Inr (), tr')"
  shows "[x \<leftarrow> statements_of tr'. x \<noteq> notify_sql]
         = [x \<leftarrow> statements_of tr. x \<noteq> notify_sql] @ map (alter_sql t) (missing_columns ex cols)"
  using assms(2)
proof (induction cols arbitrary: tr)
  case Nil
  then show ?case by (simp add: missing_columns_def)
next
  case (Cons c cols)
  show ?case
  proof (cases "col_name c \<in> set ex")
    case True
    with Cons.prems have "alter_loop env tr eid t ex cols = (Inr (), tr')" by simp
    from Cons.IH[OF this] True show ?thesis by (simp add: missing_columns_def)
  next
    case False
    obtain r1 tr1 where e: "execute_query env tr eid (alter_sql t c) = (r1, tr1)"
      by (cases "execute_query env tr eid (alter_sql t c)")
    with Cons.prems False have l: "alter_loop env tr1 eid t ex cols = (Inr (), tr')"
      by (cases r1) simp_all
    from Cons.IH[OF l] execute_query_statements[OF assms(1) e alter_sql_not_notify] False
    show ?thesis by (simp add: missing_columns_def)
  qed
qed

lemma alter_loop_nothing_missing:
  "set (map col_name cols) \<subseteq> set ex \<Longrightarrow> alter_loop env tr eid t ex cols = (Inr (), tr)"
  by (induction cols) auto

text \<open>
  C3. With \<open>live\<close> the column names the catalog reports, the statements that
  \<^verbatim>\<open>_compare_and_alter_table\<close> hands to \<^verbatim>\<open>execute_query\<close> after the catalog query are
  the \<open>ADD COLUMN\<close> statements of the inferred columns missing from \<open>live\<close>, one each
  and in order: all of them when no statement raises, a prefix otherwise. Nothing else
  reaches the connection but the reload notification, and with a pool at hand each of
  those statements reaches it once. When every inferred column is live, nothing is sent.
\<close>

theorem compare_and_alter_adds_missing_columns:
  assumes "get_table_schema_from_db env tr eid t = (Inr live, tr1)"
      and "compare_and_alter_table env tr eid t s = (r, tr2)"
  shows "(\<exists>n. queries_of tr2
              = queries_of tr1 @ take n (map (alter_sql t) (missing_columns live (ts_columns s))))
       \<and> (r = Inr () \<longrightarrow>
            queries_of tr2
              = queries_of tr1 @ map (alter_sql t) (missing_columns live (ts_columns s)))
       \<and> set (statements_of tr2)
            \<subseteq> set (statements_of tr1) \<union> {notify_sql}
              \<union> set (map (alter_sql t) (missing_columns live (ts_columns s)))
       \<and> (r = Inr () \<and> (\<forall>tr0. connection_pool env tr0 eid \<and> pool_acquire env tr0 = None) \<longrightarrow>
            [q \<leftarrow> statements_of tr2. q \<noteq> notify_sql]
              = [q \<leftarrow> statements_of tr1. q \<noteq> notify_sql]
                @ map (alter_sql t) (missing_columns live (ts_columns s)))
       \<and> (set (map col_name (ts_columns s)) \<subseteq> set live \<longrightarrow> r = Inr () \<and> tr2 = tr1)"
proof -
  have l: "alter_loop env tr1 eid t live (ts_columns s) = (r, tr2)"
    using assms by (simp add: compare_and_alter_table_def)
  note t = alter_loop_trace[OF l]
  have d: "r = Inr () \<and> (\<forall>tr0. connection_pool env tr0 eid \<and> pool_acquire env tr0 = None) \<longrightarrow>
            [q \<leftarrow> statements_of tr2. q \<noteq> notify_sql]
              = [q \<leftarrow> statements_of tr1. q \<noteq> notify_sql]
                @ map (alter_sql t) (missing_columns live (ts_columns s))"
    using l alter_loop_statements by blast
  have z: "set (map col_name (ts_columns s)) \<subseteq> set live \<longrightarrow> r = Inr () \<and> tr2 = tr1"
    using l alter_loop_nothing_missing[of "ts_columns s" live env tr1 eid t] by auto
  show ?thesis using t d z by blast
qed

theorem compare_and_alter_adds_missing_columns_witness:
  "get_table_schema_from_db env_metrics [] ''acme'' ''metrics''
       = (Inr [''ts'', ''value''], fetch_events ''acme'' (columns_sql ''metrics''))
   \<and> compare_and_alter_table env_metrics [] ''acme'' ''metrics'' metrics_schema
       = (Inr (), fetch_events ''acme'' (columns_sql ''metrics'')
                  @ ddl_events ''acme'' (alter_sql ''metrics'' (inferred_column ''tag'' TEXT False)))
   \<and> missing_columns [''ts'', ''value''] (ts_columns metrics_schema)
       = [inferred_column ''tag'' TEXT False]
   \<and> queries_of (fetch_events ''acme'' (columns_sql ''metrics'')
                  @ ddl_events ''acme'' (alter_sql ''metrics'' (inferred_column ''tag'' TEXT False)))
       = queries_of (fetch_events ''acme'' (columns_sql ''metrics''))
         @ map (alter_sql ''metrics'') (missing_columns [''ts'', ''value''] (ts_columns metrics_schema))"
proof -
  have h1: "get_table_schema_from_db env_metrics [] ''acme'' ''metrics''
       = (Inr [''ts'', ''value''], fetch_events ''acme'' (columns_sql ''metrics''))"
    by code_simp
  have h2: "compare_and_alter_table env_metrics [] ''acme'' ''metrics'' metrics_schema
       = (Inr (), fetch_events ''acme'' (columns_sql ''metrics'')
                  @ ddl_events ''acme'' (alter_sql ''metrics'' (inferred_column ''tag'' TEXT False)))"
    by code_simp
  have m: "missing_columns [''ts'', ''value''] (ts_columns metrics_schema)
       = [inferred_column ''tag'' TEXT False]"
    by code_simp
  note c = compare_and_alter_adds_missing_columns[OF h1 h2]
  have q: "queries_of (fetch_events ''acme'' (columns_sql ''metrics'')
                  @ ddl_events ''acme'' (alter_sql ''metrics'' (inferred_column ''tag'' TEXT False)))
       = queries_of (fetch_events ''acme'' (columns_sql ''metrics''))
         @ map (alter_sql ''metrics'') (missing_columns [''ts'', ''value''] (ts_columns metrics_schema))"
    using c by blast
  show ?thesis by (intro conjI h1 h2 m q)
qed

text \<open>
  C7. For the empty batch the call succeeds with zero rows and an empty trace: no client
  or pool is requested, no statement is sent and nothing is written.
\<close>

theorem upsert_empty_is_noop:
  "upsert_data env empresa_id table_name [] = ((True, MsgNoData, 0), [])"
  by (simp add: upsert_data_def)

end
